theory Spec2Isabelle
  imports Complex_Main "HOL-Library.Char_ord" "HOL-Library.List_Lexorder"
begin

section \<open>Errors and tables\<close>

text \<open>
  Every \<^verbatim>\<open>sys.exit()\<close> of \<^verbatim>\<open>tallsorts.py\<close> follows a \<^verbatim>\<open>message(...)\<close>; each exit site
  is one constructor carrying the identifiers its message prints. The exceptions of the
  Python runtime that the code can raise on the way are constructors as well.
\<close>

datatype error =
    NoParentColumn
  | DuplicateHierarchyLabel string
  | DanglingParent string
  | SampleNotInSheet string
  | DuplicateSheetLabel string
  | LabelNotInHierarchy string
  | NotPositiveForParent string string string
  | KeyError string
  | ValueError string
  | IndexError

text \<open>The spec's taxonomy of the fatal validation failures.\<close>

fun StructuralError :: "error \<Rightarrow> bool" where
  "StructuralError NoParentColumn = True"
| "StructuralError (DuplicateHierarchyLabel l) = True"
| "StructuralError (DanglingParent p) = True"
| "StructuralError e = False"

fun InputConsistencyError :: "error \<Rightarrow> bool" where
  "InputConsistencyError (SampleNotInSheet s) = True"
| "InputConsistencyError (DuplicateSheetLabel l) = True"
| "InputConsistencyError (LabelNotInHierarchy l) = True"
| "InputConsistencyError (NotPositiveForParent s l p) = True"
| "InputConsistencyError e = False"

text \<open>
  A pandas DataFrame: the row labels, the column labels and the entries by position
  (\<open>dat f i j\<close> is row \<open>i\<close>, column \<open>j\<close>). Only the positions below the two lengths
  belong to the table. Where the code reads by label, the first position carrying the
  label is taken (row and column labels are identifiers). Column labels are strings
  everywhere but in \<^verbatim>\<open>run\<close>, which may relabel them.
\<close>

record ('c, 'v) frame =
  index :: "string list"
  columns :: "'c list"
  dat :: "nat \<Rightarrow> nat \<Rightarrow> 'v"

definition row_values :: "('c, 'v) frame \<Rightarrow> nat \<Rightarrow> 'v list" where
  "row_values f i = map (dat f i) [0..<length (columns f)]"

definition col_values :: "('c, 'v) frame \<Rightarrow> nat \<Rightarrow> 'v list" where
  "col_values f j = map (\<lambda>i. dat f i j) [0..<length (index f)]"

fun index_of :: "'a \<Rightarrow> 'a list \<Rightarrow> nat option" where
  "index_of x [] = None"
| "index_of x (y # ys) = (if x = y then Some 0 else map_option Suc (index_of x ys))"

text \<open>\<^verbatim>\<open>frame[name]\<close>: the column called \<open>name\<close>, a KeyError when there is none.\<close>

definition getitem :: "(string, 'v) frame \<Rightarrow> string \<Rightarrow> error + 'v list" where
  "getitem f name =
     (case index_of name (columns f) of
        None \<Rightarrow> Inl (KeyError name)
      | Some j \<Rightarrow> Inr (col_values f j))"

text \<open>
  \<^verbatim>\<open>Index.value_counts()\<close>: each distinct label with the number of its occurrences, the
  most frequent first (labels of equal frequency in the order of their first occurrence).
\<close>

definition value_counts :: "string list \<Rightarrow> (string \<times> nat) list" where
  "value_counts xs =
     sort_key (\<lambda>(l, c). - int c) (map (\<lambda>l. (l, count_list xs l)) (rev (remdups (rev xs))))"

text \<open>\<^verbatim>\<open>value_counts()[value_counts() > 1]\<close>\<close>

definition duplicate_labels :: "string list \<Rightarrow> (string \<times> nat) list" where
  "duplicate_labels xs = filter (\<lambda>(l, c). c > 1) (value_counts xs)"

text \<open>Python's \<^verbatim>\<open>max\<close> and \<^verbatim>\<open>min\<close> of a list: a ValueError on the empty list.\<close>

definition py_max :: "'a::linorder list \<Rightarrow> error + 'a" where
  "py_max xs = (case xs of [] \<Rightarrow> Inl (ValueError ''max() arg is an empty sequence'')
                | y # ys \<Rightarrow> Inr (fold max ys y))"

definition py_min :: "'a::linorder list \<Rightarrow> error + 'a" where
  "py_min xs = (case xs of [] \<Rightarrow> Inl (ValueError ''min() arg is an empty sequence'')
                | y # ys \<Rightarrow> Inr (fold min ys y))"

section \<open>Hierarchy validation\<close>

text \<open>
  \<^verbatim>\<open>check_hierarchy(hierarchy)\<close>. The hierarchy table has the labels as its index and its
  cells are strings; the empty string is the only falsy one (\<^verbatim>\<open>if i and ...\<close>).
\<close>

definition check_hierarchy :: "(string, string) frame \<Rightarrow> error + unit" where
  "check_hierarchy hierarchy =
     (if ''Parent'' \<notin> set (columns hierarchy) then Inl NoParentColumn
      else case duplicate_labels (index hierarchy) of
        (l, c) # _ \<Rightarrow> Inl (DuplicateHierarchyLabel l)
      | [] \<Rightarrow>
         (case getitem hierarchy ''Parent'' of
            Inl e \<Rightarrow> Inl e
          | Inr parents \<Rightarrow>
             (case List.find (\<lambda>i. i \<noteq> [] \<and> i \<notin> set (index hierarchy)) parents of
                Some i \<Rightarrow> Inl (DanglingParent i)
              | None \<Rightarrow> Inr ())))"

text \<open>
  The parent references of a table, for stating what a cycle is: the parent entry of the
  first row carrying the label, when it is not empty.
\<close>

definition table_parent :: "(string, string) frame \<Rightarrow> string \<Rightarrow> string option" where
  "table_parent h l =
     (case getitem h ''Parent'' of
        Inl e \<Rightarrow> None
      | Inr parents \<Rightarrow>
         (case map_of (zip (index h) parents) l of
            None \<Rightarrow> None
          | Some p \<Rightarrow> if p = [] then None else Some p))"

fun table_chain :: "(string, string) frame \<Rightarrow> nat \<Rightarrow> string \<Rightarrow> string list" where
  "table_chain h 0 l = []"
| "table_chain h (Suc n) l =
     (case table_parent h l of None \<Rightarrow> [] | Some p \<Rightarrow> p # table_chain h n p)"

text \<open>A label that is reached again by following its own parent references.\<close>

definition cyclic :: "(string, string) frame \<Rightarrow> bool" where
  "cyclic h = (\<exists>l \<in> set (index h). l \<in> set (table_chain h (length (index h)) l))"

text \<open>The three defects a hierarchy table is checked for.\<close>

definition parent_column_absent :: "(string, string) frame \<Rightarrow> bool" where
  "parent_column_absent h = (''Parent'' \<notin> set (columns h))"

definition label_duplicated :: "(string, string) frame \<Rightarrow> bool" where
  "label_duplicated h = (\<not> distinct (index h))"

definition parent_entries :: "(string, string) frame \<Rightarrow> string list" where
  "parent_entries h = (case getitem h ''Parent'' of Inl e \<Rightarrow> [] | Inr parents \<Rightarrow> parents)"

definition dangling_parent :: "(string, string) frame \<Rightarrow> bool" where
  "dangling_parent h = (\<exists>p \<in> set (parent_entries h). p \<noteq> [] \<and> p \<notin> set (index h))"

text \<open>The table of the claim's example: label A with parent B, label B with parent A.\<close>

definition two_cycle :: "(string, string) frame" where
  "two_cycle = \<lparr> index = [''A'', ''B''], columns = [''Parent''],
                 dat = (\<lambda>i j. [[''B''], [''A'']] ! i ! j) \<rparr>"

section \<open>The subtype objects and the training inputs\<close>

text \<open>
  Numeric cells of the counts matrix and of the label sheet: a number, or \<open>None\<close> for a
  missing value (NaN). Numbers are exact rationals; the rounding of doubles is not
  modelled. Comparisons with NaN are false.
\<close>

type_synonym cell = "rat option"

text \<open>\<^verbatim>\<open>true_classifications > 0.5\<close> and \<^verbatim>\<open>... == 1\<close> on one cell.\<close>

definition gt_half :: "cell \<Rightarrow> bool" where
  "gt_half v = (case v of None \<Rightarrow> False | Some r \<Rightarrow> r > 1 / 2)"

definition eq_one :: "cell \<Rightarrow> bool" where
  "eq_one v = (v = Some 1)"

text \<open>
  Modelled from the spec: the class \<^verbatim>\<open>SubtypeClass\<close> of
  \<^verbatim>\<open>TALLSorts.stages.subtype_class\<close> is not part of the sources at hand. A SubtypeNode has
  a label, a level (the depth, 1 for the children of the root), a parent (none for a
  root) and its children; the reference to another node is that node's label, which is
  what the code reads from it (\<^verbatim>\<open>.parent.label\<close>, \<^verbatim>\<open>[i.label for i in ....children]\<close>).
  \<^verbatim>\<open>subtypeObjects\<close> is the dictionary from label to node, in insertion order.
\<close>

record subtype =
  label :: string
  level :: nat
  parent :: "string option"
  children :: "string list"

type_synonym subtype_objects = "(string \<times> subtype) list"


text \<open>\<^verbatim>\<open>true_classifications[true_classifications > 0.5].index\<close> for the row at position \<open>i\<close>.\<close>

definition positive_labels :: "(string, cell) frame \<Rightarrow> nat \<Rightarrow> string list" where
  "positive_labels sample_sheet i =
     map fst (filter (\<lambda>(l, v). gt_half v) (zip (columns sample_sheet) (row_values sample_sheet i)))"

text \<open>
  The innermost loop, \<^verbatim>\<open>for level in range(max_levels)\<close>, with \<open>n\<close> iterations left:
  it climbs from \<open>cur_label\<close> to its parent as long as the parent is positive.
\<close>

fun level_loop :: "subtype_objects \<Rightarrow> string \<Rightarrow> string list \<Rightarrow> nat \<Rightarrow> string \<Rightarrow> error + unit" where
  "level_loop subtypeObjects sample positive 0 cur_label = Inr ()"
| "level_loop subtypeObjects sample positive (Suc n) cur_label =
     (case map_of subtypeObjects cur_label of
        None \<Rightarrow> Inl (KeyError cur_label)
      | Some ob \<Rightarrow>
         (case parent ob of
            None \<Rightarrow> Inr ()
          | Some p \<Rightarrow>
             if p \<notin> set positive then Inl (NotPositiveForParent sample cur_label p)
             else level_loop subtypeObjects sample positive n p))"

text \<open>\<^verbatim>\<open>for label in positive_labels\<close>\<close>

fun label_loop :: "subtype_objects \<Rightarrow> string \<Rightarrow> string list \<Rightarrow> nat \<Rightarrow> string list \<Rightarrow> error + unit" where
  "label_loop subtypeObjects sample positive max_levels [] = Inr ()"
| "label_loop subtypeObjects sample positive max_levels (l # ls) =
     (case level_loop subtypeObjects sample positive max_levels l of
        Inl e \<Rightarrow> Inl e
      | Inr u \<Rightarrow> label_loop subtypeObjects sample positive max_levels ls)"

text \<open>\<^verbatim>\<open>for sample in sample_sheet.index\<close>; \<^verbatim>\<open>sample_sheet.loc[sample]\<close> is the row of the label.\<close>

fun sample_loop :: "(string, cell) frame \<Rightarrow> subtype_objects \<Rightarrow> nat \<Rightarrow> string list \<Rightarrow> error + unit" where
  "sample_loop sample_sheet subtypeObjects max_levels [] = Inr ()"
| "sample_loop sample_sheet subtypeObjects max_levels (sample # rest) =
     (case index_of sample (index sample_sheet) of
        None \<Rightarrow> Inl (KeyError sample)
      | Some i \<Rightarrow>
         (let positive = positive_labels sample_sheet i in
          case label_loop subtypeObjects sample positive max_levels positive of
            Inl e \<Rightarrow> Inl e
          | Inr u \<Rightarrow> sample_loop sample_sheet subtypeObjects max_levels rest))"

text \<open>\<^verbatim>\<open>check_training_inputs(X, sample_sheet, subtypeObjects)\<close>\<close>

definition check_training_inputs :: "(string, cell) frame \<Rightarrow> (string, cell) frame \<Rightarrow> subtype_objects \<Rightarrow> error + unit" where
  "check_training_inputs X sample_sheet subtypeObjects =
     (case List.find (\<lambda>i. i \<notin> set (index sample_sheet)) (index X) of
        Some i \<Rightarrow> Inl (SampleNotInSheet i)
      | None \<Rightarrow>
         (case duplicate_labels (columns sample_sheet) of
            (l, c) # _ \<Rightarrow> Inl (DuplicateSheetLabel l)
          | [] \<Rightarrow>
             (case List.find (\<lambda>i. i \<notin> set (map fst subtypeObjects)) (columns sample_sheet) of
                Some i \<Rightarrow> Inl (LabelNotInHierarchy i)
              | None \<Rightarrow>
                 (case py_max (map (\<lambda>(l, ob). level ob) subtypeObjects) of
                    Inl e \<Rightarrow> Inl e
                  | Inr max_levels \<Rightarrow>
                      sample_loop sample_sheet subtypeObjects max_levels (index sample_sheet)))))"






text \<open>The three checks that \<^verbatim>\<open>check_training_inputs\<close> makes before the ancestor check.\<close>

definition samples_listed :: "(string, cell) frame \<Rightarrow> (string, cell) frame \<Rightarrow> bool" where
  "samples_listed X sample_sheet = (set (index X) \<subseteq> set (index sample_sheet))"


text \<open>A hierarchy table with a parent that is not a label, for the examples.\<close>

definition dangling_table :: "(string, string) frame" where
  "dangling_table = \<lparr> index = [''A'', ''A1''], columns = [''Parent''],
                      dat = (\<lambda>i j. [[[]], [''Z'']] ! i ! j) \<rparr>"

section \<open>Hyperparameters\<close>

text \<open>
  Python dictionaries keep their keys in insertion order: an association list with
  distinct keys. \<open>dict_set\<close> is \<^verbatim>\<open>d[k] = v\<close>.
\<close>

fun dict_set :: "'k \<Rightarrow> 'v \<Rightarrow> ('k \<times> 'v) list \<Rightarrow> ('k \<times> 'v) list" where
  "dict_set k v [] = [(k, v)]"
| "dict_set k v ((k', v') # d) = (if k = k' then (k, v) # d else (k', v') # dict_set k v d)"

text \<open>
  The values of the parameter table and of the keyword arguments of the logistic
  regression: integers, floats (as exact rationals) and strings, with Python's truth
  value of each.
\<close>

datatype pyval = PInt int | PFloat rat | PStr string

fun truthy :: "pyval \<Rightarrow> bool" where
  "truthy (PInt n) = (n \<noteq> 0)"
| "truthy (PFloat r) = (r \<noteq> 0)"
| "truthy (PStr s) = (s \<noteq> [])"

text \<open>
  The conversions \<^verbatim>\<open>int\<close>, \<^verbatim>\<open>float\<close> and \<^verbatim>\<open>str\<close> are Python's own; they are parameters of
  the model, each returning the converted value or the exception it raises.
\<close>

record builtins =
  py_int :: "pyval \<Rightarrow> error + pyval"
  py_float :: "pyval \<Rightarrow> error + pyval"
  py_str :: "pyval \<Rightarrow> error + pyval"

type_synonym params = "(string \<times> pyval) list"

definition default_params :: params where
  "default_params =
     [(''random_state'', PInt 0), (''max_iter'', PInt 10000), (''tol'', PFloat (1 / 10000)),
      (''penalty'', PStr ''l1''), (''solver'', PStr ''saga''), (''C'', PFloat (2 / 10)),
      (''class_weight'', PStr ''balanced'')]"

definition param_modifiers :: "builtins \<Rightarrow> (string \<times> (pyval \<Rightarrow> error + pyval)) list" where
  "param_modifiers bi =
     [(''random_state'', py_int bi), (''max_iter'', py_int bi), (''tol'', py_float bi),
      (''penalty'', py_str bi), (''solver'', py_str bi), (''C'', py_float bi),
      (''class_weight'', py_str bi)]"

text \<open>
  \<^verbatim>\<open>for property in row.index: if row[property]: ...\<close> over the cells of one row of the
  parameter table, updating the label's copy of the defaults.
\<close>

fun property_loop :: "builtins \<Rightarrow> (string \<times> pyval) list \<Rightarrow> params \<Rightarrow> error + params" where
  "property_loop bi [] d = Inr d"
| "property_loop bi ((property, v) # rest) d =
     (if truthy v then
        (case map_of (param_modifiers bi) property of
           None \<Rightarrow> Inl (KeyError property)
         | Some f \<Rightarrow>
            (case f v of
               Inl e \<Rightarrow> Inl e
             | Inr v' \<Rightarrow> property_loop bi rest (dict_set property v' d)))
      else property_loop bi rest d)"

text \<open>\<^verbatim>\<open>for label in subtypeObjects\<close>\<close>

fun params_loop ::
  "builtins \<Rightarrow> (string, pyval) frame \<Rightarrow> string list \<Rightarrow> (string \<times> params) list \<Rightarrow>
   error + (string \<times> params) list" where
  "params_loop bi training_params [] logreg_params = Inr logreg_params"
| "params_loop bi training_params (l # rest) logreg_params =
     (case index_of l (index training_params) of
        None \<Rightarrow> params_loop bi training_params rest (dict_set l default_params logreg_params)
      | Some i \<Rightarrow>
         (case property_loop bi (zip (columns training_params) (row_values training_params i))
                 default_params of
            Inl e \<Rightarrow> Inl e
          | Inr d \<Rightarrow> params_loop bi training_params rest (dict_set l d logreg_params)))"

text \<open>\<^verbatim>\<open>gen_logreg_params(training_params, subtypeObjects)\<close>; no table is \<open>None\<close>.\<close>

definition gen_logreg_params ::
  "builtins \<Rightarrow> (string, pyval) frame option \<Rightarrow> subtype_objects \<Rightarrow> error + (string \<times> params) list" where
  "gen_logreg_params bi training_params subtypeObjects =
     (case training_params of
        None \<Rightarrow> Inr (map (\<lambda>(i, ob). (i, default_params)) subtypeObjects)
      | Some tp \<Rightarrow> params_loop bi tp (map fst subtypeObjects) [])"




text \<open>Conversions for the examples: the identity on values of the target type.\<close>

definition same_type_builtins :: builtins where
  "same_type_builtins =
     \<lparr> py_int = (\<lambda>v. case v of PInt n \<Rightarrow> Inr (PInt n) | _ \<Rightarrow> Inl (ValueError ''int'')),
       py_float = (\<lambda>v. case v of PFloat r \<Rightarrow> Inr (PFloat r) | PInt n \<Rightarrow> Inr (PFloat (of_int n))
                        | _ \<Rightarrow> Inl (ValueError ''float'')),
       py_str = (\<lambda>v. case v of PStr s \<Rightarrow> Inr (PStr s) | _ \<Rightarrow> Inl (ValueError ''str'')) \<rparr>"


definition small_hierarchy :: subtype_objects where
  "small_hierarchy =
     [(''A'', \<lparr> label = ''A'', level = 1, parent = None, children = [''A1''] \<rparr>),
      (''B'', \<lparr> label = ''B'', level = 1, parent = None, children = [] \<rparr>),
      (''A1'', \<lparr> label = ''A1'', level = 2, parent = Some ''A'', children = [] \<rparr>)]"

section \<open>The genome annotation and the gene symbols\<close>

text \<open>
  The annotation (pyensembl's \<^verbatim>\<open>EnsemblRelease(110)\<close>) is an external service: a
  parameter of the model. A query that raises returns \<open>None\<close>. Of a Gene object the code
  reads \<^verbatim>\<open>gene_id\<close>, \<^verbatim>\<open>biotype\<close> and \<^verbatim>\<open>contig\<close>.
\<close>

record gene =
  gene_id :: string
  biotype :: string
  contig :: string

record ensembl =
  gene_by_id :: "string \<Rightarrow> gene option"
  genes_by_name :: "string \<Rightarrow> gene list option"
  gene_ids :: "string \<Rightarrow> string list"

text \<open>\<^verbatim>\<open>str.upper()\<close> on the ASCII letters.\<close>

definition upper :: "string \<Rightarrow> string" where
  "upper s = map (\<lambda>c. let n = (of_char c :: nat)
                      in if 97 \<le> n \<and> n \<le> 122 then char_of (n - 32) else c) s"

text \<open>
  The values of the \<^verbatim>\<open>confirmed\<close> dictionary: the first loop stores a gene identifier
  (\<^verbatim>\<open>z[0].gene_id\<close>), the elimination loop stores the Gene object itself (\<^verbatim>\<open>y[0]\<close>). A Gene
  object is never equal to a string.
\<close>

datatype ens_val = GeneId string | GeneObj gene

type_synonym confirmed_dict = "(string \<times> ens_val) list"

text \<open>
  \<^verbatim>\<open>for i in symb_list: try: ... except: nonexistent.append(i)\<close>, on the three
  accumulators \<open>(confirmed, unconfirmed, nonexistent)\<close>.
\<close>

fun symbol_loop ::
  "ensembl \<Rightarrow> string list \<Rightarrow> confirmed_dict \<times> string list \<times> string list \<Rightarrow>
   confirmed_dict \<times> string list \<times> string list" where
  "symbol_loop db [] acc = acc"
| "symbol_loop db (i # rest) (confirmed, unconfirmed, nonexistent) =
     (case genes_by_name db (upper i) of
        None \<Rightarrow> symbol_loop db rest (confirmed, unconfirmed, nonexistent @ [i])
      | Some z \<Rightarrow>
         if length z = 1
         then symbol_loop db rest (dict_set i (GeneId (gene_id (hd z))) confirmed, unconfirmed, nonexistent)
         else symbol_loop db rest (confirmed, unconfirmed @ [i], nonexistent))"

text \<open>
  One pass of the process of elimination, \<^verbatim>\<open>for i in unconfirmed\<close>, on
  \<open>(confirmed, unconfirmed2, fixed)\<close>. The query is outside any \<^verbatim>\<open>try\<close> here.
\<close>

fun elim_pass ::
  "ensembl \<Rightarrow> string list \<Rightarrow> confirmed_dict \<times> string list \<times> nat \<Rightarrow>
   error + confirmed_dict \<times> string list \<times> nat" where
  "elim_pass db [] acc = Inr acc"
| "elim_pass db (i # rest) (confirmed, unconfirmed2, fixed) =
     (case genes_by_name db (upper i) of
        None \<Rightarrow> Inl (ValueError i)
      | Some z \<Rightarrow>
         (let y = filter (\<lambda>g. GeneObj g \<notin> set (map snd confirmed)) z in
          if length y = 1
          then elim_pass db rest (dict_set i (GeneObj (hd y)) confirmed, unconfirmed2, fixed + 1)
          else elim_pass db rest (confirmed, unconfirmed2 @ [i], fixed)))"

lemma elim_pass_length:
  "elim_pass db u (c, u0, f0) = Inr (c', u2, f') \<Longrightarrow> length u2 + f' = length u0 + f0 + length u"
  by (induction u arbitrary: c u0 f0)
     (auto simp: Let_def split: option.splits if_splits)

text \<open>
  \<^verbatim>\<open>fixed = 1; while fixed > 0: ...\<close>: the first pass always runs, and another one follows
  a pass that fixed a symbol.
\<close>

function elim_loop ::
  "ensembl \<Rightarrow> confirmed_dict \<Rightarrow> string list \<Rightarrow> error + confirmed_dict \<times> string list" where
  "elim_loop db confirmed unconfirmed =
     (case elim_pass db unconfirmed (confirmed, [], 0) of
        Inl e \<Rightarrow> Inl e
      | Inr (confirmed', unconfirmed2, fixed) \<Rightarrow>
          if fixed > 0 then elim_loop db confirmed' unconfirmed2
          else Inr (confirmed', unconfirmed2))"
  by pat_completeness auto
termination
proof (relation "measure (\<lambda>(db, confirmed, unconfirmed). length unconfirmed)")
  show "wf (measure (\<lambda>(db, confirmed, unconfirmed). length unconfirmed))" by simp
next
  fix db :: ensembl and confirmed :: confirmed_dict and unconfirmed x2 x y x2a xa ya
  assume "elim_pass db unconfirmed (confirmed, [], 0) = Inr x2" "(x, y) = x2" "(xa, ya) = y"
    "0 < (ya :: nat)"
  then have "elim_pass db unconfirmed (confirmed, [], 0) = Inr (x, xa, ya)" by simp
  from elim_pass_length [OF this] \<open>0 < ya\<close>
  show "((db, x, xa), db, confirmed, unconfirmed)
          \<in> measure (\<lambda>(db, confirmed, unconfirmed). length unconfirmed)"
    by simp
qed

declare elim_loop.simps [simp del]

text \<open>
  \<^verbatim>\<open>convert_symbols_to_ensembl(symb_list)\<close>; the result is the dictionary with the keys
  \<^verbatim>\<open>'confirmed'\<close> and \<^verbatim>\<open>'unconfirmed'\<close>.
\<close>

record conversion =
  confirmed :: confirmed_dict
  unconfirmed :: "string list"

definition convert_symbols_to_ensembl :: "ensembl \<Rightarrow> string list \<Rightarrow> error + conversion" where
  "convert_symbols_to_ensembl db symb_list =
     (case symbol_loop db symb_list ([], [], []) of
        (c, u, nonexistent) \<Rightarrow>
          (case elim_loop db c u of
             Inl e \<Rightarrow> Inl e
           | Inr (c', u') \<Rightarrow> Inr \<lparr> confirmed = c', unconfirmed = u' @ nonexistent \<rparr>))"

text \<open>An annotation for the examples: five genes, one of them with two entries by name.\<close>

definition example_genes :: "gene list" where
  "example_genes =
     [\<lparr> gene_id = ''ENSG01'', biotype = ''protein_coding'', contig = ''1'' \<rparr>,
      \<lparr> gene_id = ''ENSG02'', biotype = ''protein_coding'', contig = ''X'' \<rparr>,
      \<lparr> gene_id = ''ENSG03'', biotype = ''lncRNA'', contig = ''X'' \<rparr>,
      \<lparr> gene_id = ''ENSG04'', biotype = ''protein_coding'', contig = ''Y'' \<rparr>,
      \<lparr> gene_id = ''ENSG05'', biotype = ''protein_coding'', contig = ''MT'' \<rparr>,
      \<lparr> gene_id = ''ENSG06'', biotype = ''protein_coding'', contig = ''2'' \<rparr>,
      \<lparr> gene_id = ''ENSG07'', biotype = ''protein_coding'', contig = ''3'' \<rparr>]"

definition example_names :: "(string \<times> string list) list" where
  "example_names =
     [(''TAL1'', [''ENSG01'']), (''FOXP3'', [''ENSG02'']), (''XIST'', [''ENSG03'']),
      (''SRY'', [''ENSG04'']), (''MT-CO1'', [''ENSG05'']), (''DUP'', [''ENSG06'', ''ENSG07''])]"

definition example_db :: ensembl where
  "example_db =
     \<lparr> gene_by_id = (\<lambda>i. List.find (\<lambda>g. gene_id g = i) example_genes),
       genes_by_name = (\<lambda>n. case map_of example_names n of
                               None \<Rightarrow> None
                             | Some ids \<Rightarrow> Some (filter (\<lambda>g. gene_id g \<in> set ids) example_genes)),
       gene_ids = (\<lambda>c. map gene_id (filter (\<lambda>g. contig g = c) example_genes)) \<rparr>"

section \<open>Feature selection\<close>

text \<open>Comprehensions whose body may raise: the first exception ends them.\<close>

fun filter_err :: "('a \<Rightarrow> error + bool) \<Rightarrow> 'a list \<Rightarrow> error + 'a list" where
  "filter_err p [] = Inr []"
| "filter_err p (x # xs) =
     (case p x of
        Inl e \<Rightarrow> Inl e
      | Inr b \<Rightarrow>
         (case filter_err p xs of
            Inl e \<Rightarrow> Inl e
          | Inr ys \<Rightarrow> Inr (if b then x # ys else ys)))"

fun map_err :: "('a \<Rightarrow> error + 'b) \<Rightarrow> 'a list \<Rightarrow> error + 'b list" where
  "map_err f [] = Inr []"
| "map_err f (x # xs) =
     (case f x of
        Inl e \<Rightarrow> Inl e
      | Inr y \<Rightarrow>
         (case map_err f xs of
            Inl e \<Rightarrow> Inl e
          | Inr ys \<Rightarrow> Inr (y # ys)))"

text \<open>
  The steps of \<^verbatim>\<open>filter_genes\<close> that consult the annotation: genes the annotation does not
  know, the genes of contig Y and XIST, the genes whose biotype is not kept, and the genes
  of contig MT.
\<close>

definition categories_to_keep :: "string list" where
  "categories_to_keep = [''protein_coding'']"

definition annotation_filter :: "ensembl \<Rightarrow> string list \<Rightarrow> error + string list" where
  "annotation_filter db candidate_genes =
     (let not_found = filter (\<lambda>i. gene_by_id db i = None) candidate_genes;
          candidate_genes = filter (\<lambda>i. i \<notin> set not_found) candidate_genes
      in case genes_by_name db ''XIST'' of
           None \<Rightarrow> Inl (ValueError ''XIST'')
         | Some [] \<Rightarrow> Inl IndexError
         | Some (xist # _) \<Rightarrow>
            (let Y = gene_ids db ''Y'' @ [gene_id xist];
                 candidate_genes = filter (\<lambda>i. i \<notin> set Y) candidate_genes
             in case filter_err (\<lambda>i. case gene_by_id db i of
                                       None \<Rightarrow> Inl (ValueError i)
                                     | Some g \<Rightarrow> Inr (biotype g \<in> set categories_to_keep))
                       candidate_genes of
                  Inl e \<Rightarrow> Inl e
                | Inr candidate_genes \<Rightarrow>
                   (case filter_err (\<lambda>i. case gene_by_id db i of
                                           None \<Rightarrow> Inl (ValueError i)
                                         | Some g \<Rightarrow> Inr (contig g = ''MT''))
                           candidate_genes of
                      Inl e \<Rightarrow> Inl e
                    | Inr MT \<Rightarrow> Inr (filter (\<lambda>i. i \<notin> set MT) candidate_genes))))"

text \<open>
  The results of the divisions: a finite number, an infinity or NaN, as numpy's floats
  give them for finite operands (a division by zero is no exception there). Rounding is
  not modelled.
\<close>

datatype xnum = Fin rat | PInf | NInf | NaN

definition xdiv :: "rat \<Rightarrow> rat \<Rightarrow> xnum" where
  "xdiv a b = (if b = 0 then (if a > 0 then PInf else if a < 0 then NInf else NaN)
               else Fin (a / b))"

fun times_1e6 :: "xnum \<Rightarrow> xnum" where
  "times_1e6 (Fin r) = Fin (r * 1000000)"
| "times_1e6 x = x"

fun xge :: "xnum \<Rightarrow> xnum \<Rightarrow> bool" where
  "xge NaN y = False"
| "xge x NaN = False"
| "xge (Fin a) (Fin b) = (a \<ge> b)"
| "xge PInf y = True"
| "xge x NInf = True"
| "xge x y = False"

text \<open>\<^verbatim>\<open>X.sum(axis=1)\<close>: the total of each row; pandas skips the missing values.\<close>

definition row_sum :: "('c, cell) frame \<Rightarrow> nat \<Rightarrow> rat" where
  "row_sum X i = sum_list (map (\<lambda>v. case v of None \<Rightarrow> 0 | Some r \<Rightarrow> r) (row_values X i))"

definition library_sizes :: "('c, cell) frame \<Rightarrow> rat list" where
  "library_sizes X = map (row_sum X) [0..<length (index X)]"

text \<open>
  \<^verbatim>\<open>conorm.cpm(X.transpose()).transpose()\<close>: counts per million, each entry divided by the
  total of its sample and multiplied by \<open>10\<^sup>6\<close> (conorm is an external library).
\<close>

definition cpm :: "('c, cell) frame \<Rightarrow> nat \<Rightarrow> nat \<Rightarrow> xnum" where
  "cpm X i j = (case dat X i j of None \<Rightarrow> NaN | Some x \<Rightarrow> times_1e6 (xdiv x (row_sum X i)))"

text \<open>\<^verbatim>\<open>cpm_threshold = 5/min(X.sum(axis=1)) * 1e6\<close>\<close>

definition cpm_threshold :: "('c, cell) frame \<Rightarrow> error + xnum" where
  "cpm_threshold X =
     (case py_min (library_sizes X) of
        Inl e \<Rightarrow> Inl e
      | Inr m \<Rightarrow> Inr (times_1e6 (xdiv 5 m)))"

text \<open>\<^verbatim>\<open>(X_cpm >= cpm_threshold).sum(axis=0)\<close> for the column at position \<open>j\<close>.\<close>

definition samples_at_threshold :: "('c, cell) frame \<Rightarrow> xnum \<Rightarrow> nat \<Rightarrow> nat" where
  "samples_at_threshold X t j =
     length (filter (\<lambda>i. xge (cpm X i j) t) [0..<length (index X)])"

text \<open>\<^verbatim>\<open>X.columns[(X_cpm >= cpm_threshold).sum(axis=0) >= min_subtype]\<close>\<close>

definition to_remain :: "('c, cell) frame \<Rightarrow> xnum \<Rightarrow> nat \<Rightarrow> 'c list" where
  "to_remain X t min_subtype =
     map (\<lambda>j. columns X ! j)
       (filter (\<lambda>j. samples_at_threshold X t j \<ge> min_subtype) [0..<length (columns X)])"

text \<open>The abundance step of \<^verbatim>\<open>filter_genes\<close>.\<close>

definition abundance_filter ::
  "(string, cell) frame \<Rightarrow> nat \<Rightarrow> string list \<Rightarrow> error + string list" where
  "abundance_filter X min_subtype candidate_genes =
     (case cpm_threshold X of
        Inl e \<Rightarrow> Inl e
      | Inr t \<Rightarrow> Inr (filter (\<lambda>i. i \<in> set (to_remain X t min_subtype)) candidate_genes))"

text \<open>\<^verbatim>\<open>filter_genes(X, min_subtype)\<close>\<close>

definition filter_genes :: "ensembl \<Rightarrow> (string, cell) frame \<Rightarrow> nat \<Rightarrow> error + string list" where
  "filter_genes db X min_subtype =
     (case annotation_filter db (columns X) of
        Inl e \<Rightarrow> Inl e
      | Inr candidate_genes \<Rightarrow>
         (case abundance_filter X min_subtype candidate_genes of
            Inl e \<Rightarrow> Inl e
          | Inr candidate_genes \<Rightarrow> Inr (sort candidate_genes)))"

section \<open>The scaling contexts\<close>

definition pos_of :: "'a \<Rightarrow> 'a list \<Rightarrow> nat" where
  "pos_of x xs = (case index_of x xs of None \<Rightarrow> 0 | Some i \<Rightarrow> i)"

text \<open>\<^verbatim>\<open>frame.loc[labels]\<close>: the rows of the labels, a KeyError for a label that is no row.\<close>

definition loc :: "('c, 'v) frame \<Rightarrow> string list \<Rightarrow> error + ('c, 'v) frame" where
  "loc f labels =
     (case List.find (\<lambda>s. s \<notin> set (index f)) labels of
        Some s \<Rightarrow> Inl (KeyError s)
      | None \<Rightarrow>
         Inr \<lparr> index = labels, columns = columns f,
               dat = (\<lambda>i j. dat f (map (\<lambda>s. pos_of s (index f)) labels ! i) j) \<rparr>)"

text \<open>\<^verbatim>\<open>frame[names]\<close> with a list: the columns of the names.\<close>

definition select_columns :: "(string, 'v) frame \<Rightarrow> string list \<Rightarrow> error + (string, 'v) frame" where
  "select_columns f names =
     (case List.find (\<lambda>c. c \<notin> set (columns f)) names of
        Some c \<Rightarrow> Inl (KeyError c)
      | None \<Rightarrow>
         Inr \<lparr> index = index f, columns = names,
               dat = (\<lambda>i j. dat f i (map (\<lambda>c. pos_of c (columns f)) names ! j)) \<rparr>)"

text \<open>
  The first half of \<^verbatim>\<open>create_scalers\<close>: the samples of the context of \<open>parent_label\<close> and
  the labels of its children.
\<close>

definition scaling_context ::
  "(string, cell) frame \<Rightarrow> (string, cell) frame \<Rightarrow> subtype_objects \<Rightarrow> string \<Rightarrow>
   error + (string, cell) frame \<times> string list" where
  "scaling_context X sample_sheet subtypeObjects parent_label =
     (if parent_label = ''Level0''
      then Inr (X, map fst (filter (\<lambda>(i, ob). level ob = 1) subtypeObjects))
      else case getitem sample_sheet parent_label of
        Inl e \<Rightarrow> Inl e
      | Inr col \<Rightarrow>
         (let subset_samples = map fst (filter (\<lambda>(s, v). eq_one v) (zip (index sample_sheet) col))
          in case loc X subset_samples of
               Inl e \<Rightarrow> Inl e
             | Inr X' \<Rightarrow>
                (case map_of subtypeObjects parent_label of
                   None \<Rightarrow> Inl (KeyError parent_label)
                 | Some ob \<Rightarrow> Inr (X', children ob))))"

text \<open>\<^verbatim>\<open>sum(sample_sheet.loc[X.index][label] == 1)\<close>\<close>

definition positive_count :: "(string, cell) frame \<Rightarrow> string list \<Rightarrow> string \<Rightarrow> error + nat" where
  "positive_count sample_sheet samples l =
     (case loc sample_sheet samples of
        Inl e \<Rightarrow> Inl e
      | Inr sub \<Rightarrow>
         (case getitem sub l of
            Inl e \<Rightarrow> Inl e
          | Inr col \<Rightarrow> Inr (length (filter eq_one col))))"

text \<open>\<^verbatim>\<open>min_subtype = min([sum(...) for label in children_labels])\<close>\<close>

definition min_subtype ::
  "(string, cell) frame \<Rightarrow> (string, cell) frame \<Rightarrow> string list \<Rightarrow> error + nat" where
  "min_subtype sample_sheet X children_labels =
     (case map_err (positive_count sample_sheet (index X)) children_labels of
        Inl e \<Rightarrow> Inl e
      | Inr counts \<Rightarrow> py_min counts)"

text \<open>\<^verbatim>\<open>if filter: ...; X = X[filter_genes(X, min_subtype)]\<close>\<close>

definition select_features ::
  "ensembl \<Rightarrow> (string, cell) frame \<Rightarrow> (string, cell) frame \<Rightarrow> string list \<Rightarrow>
   error + (string, cell) frame" where
  "select_features db sample_sheet X children_labels =
     (case min_subtype sample_sheet X children_labels of
        Inl e \<Rightarrow> Inl e
      | Inr m \<Rightarrow>
         (case filter_genes db X m of
            Inl e \<Rightarrow> Inl e
          | Inr genes \<Rightarrow> select_columns X genes))"

text \<open>A counts matrix and a label sheet for the examples.\<close>

definition example_counts :: "(string, cell) frame" where
  "example_counts =
     \<lparr> index = [''s1'', ''s2'', ''s3''],
       columns = [''ENSG01'', ''ENSG02'', ''ENSG06''],
       dat = (\<lambda>i j. [[Some 10, Some 90, Some 0],
                      [Some 5, Some 995, Some 0],
                      [Some 1, Some 99, Some 0]] ! i ! j) \<rparr>"

definition example_sheet :: "(string, cell) frame" where
  "example_sheet =
     \<lparr> index = [''s1'', ''s2'', ''s3''],
       columns = [''A'', ''B'', ''A1''],
       dat = (\<lambda>i j. [[Some 1, Some 0, Some 1],
                      [Some 0, Some 1, Some 0],
                      [Some 1, Some 0, Some 0]] ! i ! j) \<rparr>"

section \<open>The entry point\<close>

text \<open>
  Modelled from the spec: the class \<^verbatim>\<open>UserInput\<close> of \<^verbatim>\<open>TALLSorts.user\<close> is not part of the
  sources at hand; these are the attributes that \<^verbatim>\<open>tallsorts.py\<close> reads from it (the flag
  \<^verbatim>\<open>ui.filter\<close> is \<open>ui_filter\<close>).
\<close>

record user_input =
  samples :: "(string, cell) frame"
  gene_labels :: string
  mode :: string
  sample_sheet :: "(string, cell) frame"
  hierarchy :: "(string, string) frame"
  training_params :: "(string, pyval) frame option"
  ui_filter :: bool

text \<open>\<^verbatim>\<open>frame.drop(labels, axis=1)\<close>: a KeyError for a label that is no column.\<close>

definition drop_columns :: "(string, 'v) frame \<Rightarrow> string list \<Rightarrow> error + (string, 'v) frame" where
  "drop_columns f labels =
     (case List.find (\<lambda>l. l \<notin> set (columns f)) labels of
        Some l \<Rightarrow> Inl (KeyError l)
      | None \<Rightarrow>
         (let keep = filter (\<lambda>j. columns f ! j \<notin> set labels) [0..<length (columns f)]
          in Inr \<lparr> index = index f, columns = map (\<lambda>j. columns f ! j) keep,
                   dat = (\<lambda>i j. dat f i (keep ! j)) \<rparr>))"

text \<open>
  The relabelling of \<^verbatim>\<open>run\<close> for gene symbols: the columns of the unconfirmed symbols are
  dropped and every other column is renamed to \<^verbatim>\<open>ensembl_relabel['confirmed'][i]\<close>.
\<close>

definition symbols_to_ensembl ::
  "ensembl \<Rightarrow> (string, cell) frame \<Rightarrow> error + (ens_val, cell) frame" where
  "symbols_to_ensembl db smp =
     (case convert_symbols_to_ensembl db (columns smp) of
        Inl e \<Rightarrow> Inl e
      | Inr ensembl_relabel \<Rightarrow>
         (case drop_columns smp (unconfirmed ensembl_relabel) of
            Inl e \<Rightarrow> Inl e
          | Inr dropped \<Rightarrow>
             (case map_err (\<lambda>i. case map_of (confirmed ensembl_relabel) i of
                                   None \<Rightarrow> Inl (KeyError i)
                                 | Some v \<Rightarrow> Inr v) (columns dropped) of
                Inl e \<Rightarrow> Inl e
              | Inr cols \<Rightarrow> Inr \<lparr> index = index dropped, columns = cols, dat = dat dropped \<rparr>)))"

text \<open>\<^verbatim>\<open>frame.fillna(v)\<close>\<close>

definition fillna :: "rat \<Rightarrow> ('c, cell) frame \<Rightarrow> ('c, cell) frame" where
  "fillna v f =
     \<lparr> index = index f, columns = columns f,
       dat = (\<lambda>i j. case dat f i j of None \<Rightarrow> Some v | Some x \<Rightarrow> Some x) \<rparr>"

text \<open>
  What \<^verbatim>\<open>run\<close> dispatches: \<^verbatim>\<open>run_predictions\<close> or \<^verbatim>\<open>fit_classifier\<close>, each with the matrix
  \<^verbatim>\<open>ui.samples\<close> as it stands at that point, or nothing for another mode. When the labels
  are not symbols the columns are gene identifiers already.
\<close>

datatype dispatch =
    Predict "(ens_val, cell) frame"
  | Train "(ens_val, cell) frame"
  | NoCall

definition relabelled :: "ensembl \<Rightarrow> user_input \<Rightarrow> error + (ens_val, cell) frame" where
  "relabelled db ui =
     (if gene_labels ui = ''symbol'' then symbols_to_ensembl db (samples ui)
      else Inr \<lparr> index = index (samples ui), columns = map GeneId (columns (samples ui)),
                 dat = dat (samples ui) \<rparr>)"

definition run :: "ensembl \<Rightarrow> user_input \<Rightarrow> error + dispatch" where
  "run db ui =
     (case relabelled db ui of
        Inl e \<Rightarrow> Inl e
      | Inr smp \<Rightarrow>
         (let smp = fillna 0 smp
          in if mode ui = ''test'' then Inr (Predict smp)
             else if mode ui = ''train'' then Inr (Train smp)
             else Inr NoCall))"

definition passed_matrix :: "dispatch \<Rightarrow> (ens_val, cell) frame option" where
  "passed_matrix c = (case c of Predict m \<Rightarrow> Some m | Train m \<Rightarrow> Some m | NoCall \<Rightarrow> None)"

definition missing_counts :: "(string, cell) frame" where
  "missing_counts =
     \<lparr> index = [''s1'', ''s2''], columns = [''tal1'', ''DUP'', ''FOO''],
       dat = (\<lambda>i j. [[Some 3, None, Some 1], [None, Some 4, None]] ! i ! j) \<rparr>"

definition example_ui :: user_input where
  "example_ui =
     \<lparr> samples = missing_counts, gene_labels = ''ensembl'', mode = ''test'',
       sample_sheet = example_sheet, hierarchy = two_cycle, training_params = None,
       ui_filter = True \<rparr>"

section \<open>The table of multiple calls\<close>

text \<open>
  The cells \<^verbatim>\<open>gen_multicall_csv\<close> writes: a string, or \<^verbatim>\<open>round(p, 3)\<close> of a probability.
  The files are a map from path to the rows written.
\<close>

datatype 'p csv_cell = CStr string | CRound3 'p

type_synonym 'p files = "string \<Rightarrow> 'p csv_cell list list option"

fun show_nat :: "nat \<Rightarrow> string" where
  "show_nat n = (if n < 10 then [char_of (48 + n)]
                 else show_nat (n div 10) @ [char_of (48 + n mod 10)])"

definition header_row :: "nat \<Rightarrow> 'p csv_cell list" where
  "header_row max_multicall =
     CStr [] # concat (map (\<lambda>k. [CStr (''call_'' @ show_nat (k + 1)), CStr ''proba''])
                          [0..<max_multicall])"

text \<open>\<^verbatim>\<open>for sample in sample_order\<close>, appending to the rows written so far.\<close>

fun write_rows ::
  "(string \<times> (string \<times> 'p) list) list \<Rightarrow> nat \<Rightarrow> string list \<Rightarrow> 'p csv_cell list list \<Rightarrow>
   (error + unit) \<times> 'p csv_cell list list" where
  "write_rows multi_calls max_multicall [] rows = (Inr (), rows)"
| "write_rows multi_calls max_multicall (sample # rest) rows =
     (case map_of multi_calls sample of
        None \<Rightarrow> (Inl (KeyError sample), rows)
      | Some calls \<Rightarrow>
         (let to_write = CStr sample # concat (map (\<lambda>(l, p). [CStr l, CRound3 p]) calls);
              to_write = to_write @ replicate (2 * max_multicall - length to_write) (CStr [])
          in write_rows multi_calls max_multicall rest (rows @ [to_write])))"

text \<open>
  \<^verbatim>\<open>gen_multicall_csv(multi_calls, sample_order, path)\<close>: the value returned (\<^verbatim>\<open>None\<close>, or
  the exception) and the files afterwards.
\<close>

definition gen_multicall_csv ::
  "(string \<times> (string \<times> 'p) list) list \<Rightarrow> string list \<Rightarrow> string \<Rightarrow> 'p files \<Rightarrow>
   (error + unit) \<times> 'p files" where
  "gen_multicall_csv multi_calls sample_order path fs =
     (if multi_calls = [] then (Inr (), fs)
      else case py_max (map (\<lambda>(i, calls). length calls) multi_calls) of
        Inl e \<Rightarrow> (Inl e, fs)
      | Inr max_multicall \<Rightarrow>
         (case write_rows multi_calls max_multicall sample_order [header_row max_multicall] of
            (r, rows) \<Rightarrow> (r, fs(path \<mapsto> rows))))"

section \<open>Training\<close>

text \<open>
  What \<^verbatim>\<open>fit_classifier\<close> calls outside \<^verbatim>\<open>tallsorts.py\<close>: the construction of the subtype
  objects, the scaler (\<^verbatim>\<open>TALLSorts.stages.scaling\<close>) and the logistic regression of
  scikit-learn. They are parameters of the model; a fitted scaler and a fitted classifier
  are opaque.
\<close>

record ('sc, 'clf) fitters =
  genSubtypeObjsFromHierarchy :: "(string, string) frame \<Rightarrow> subtype_objects"
  createScaler :: "(string, cell) frame \<Rightarrow> 'sc"
  scaleForTesting :: "(string, cell) frame \<Rightarrow> 'sc \<Rightarrow> (string, cell) frame"
  logreg_fit :: "params \<Rightarrow> (string, cell) frame \<Rightarrow> bool list \<Rightarrow> 'clf"

text \<open>
  The dictionary \<^verbatim>\<open>scalers\<close> and the classifiers stored in the subtype objects: what has
  been fitted so far.
\<close>

record ('sc, 'clf) fitted =
  scalers :: "(string \<times> 'sc) list"
  clfs :: "(string \<times> 'clf) list"

definition nothing_fitted :: "('sc, 'clf) fitted" where
  "nothing_fitted = \<lparr> scalers = [], clfs = [] \<rparr>"

text \<open>\<^verbatim>\<open>create_scalers(X, parent_label, filter)\<close>\<close>

definition create_scalers ::
  "('sc, 'clf) fitters \<Rightarrow> ensembl \<Rightarrow> user_input \<Rightarrow> subtype_objects \<Rightarrow> string \<Rightarrow>
   ('sc, 'clf) fitted \<Rightarrow> error + ('sc, 'clf) fitted" where
  "create_scalers env db ui subtypeObjects parent_label st =
     (case scaling_context (samples ui) (sample_sheet ui) subtypeObjects parent_label of
        Inl e \<Rightarrow> Inl e
      | Inr (X, children_labels) \<Rightarrow>
         (case (if ui_filter ui then select_features db (sample_sheet ui) X children_labels
                else Inr X) of
            Inl e \<Rightarrow> Inl e
          | Inr X \<Rightarrow>
             Inr (st \<lparr> scalers := dict_set parent_label (createScaler env X) (scalers st) \<rparr>)))"

text \<open>\<^verbatim>\<open>performing_training(X, label, logreg_params[label])\<close>\<close>

definition performing_training ::
  "('sc, 'clf) fitters \<Rightarrow> user_input \<Rightarrow> subtype_objects \<Rightarrow> (string \<times> params) list \<Rightarrow> string \<Rightarrow>
   ('sc, 'clf) fitted \<Rightarrow> error + ('sc, 'clf) fitted" where
  "performing_training env ui subtypeObjects logreg_params l st =
     (case map_of logreg_params l of
        None \<Rightarrow> Inl (KeyError l)
      | Some ps \<Rightarrow>
     (case map_of subtypeObjects l of
        None \<Rightarrow> Inl (KeyError l)
      | Some ob \<Rightarrow>
     (let parent_label = (case parent ob of Some p \<Rightarrow> p | None \<Rightarrow> ''Level0'') in
      case (if parent_label \<noteq> ''Level0''
            then (case getitem (sample_sheet ui) parent_label of
                    Inl e \<Rightarrow> Inl e
                  | Inr col \<Rightarrow>
                      loc (samples ui)
                        (map fst (filter (\<lambda>(s, v). eq_one v) (zip (index (sample_sheet ui)) col))))
            else Inr (samples ui)) of
        Inl e \<Rightarrow> Inl e
      | Inr X_subset \<Rightarrow>
     (case map_of (scalers st) parent_label of
        None \<Rightarrow> Inl (KeyError parent_label)
      | Some scaler \<Rightarrow>
     (let X_train = scaleForTesting env X_subset scaler in
      case loc (sample_sheet ui) (index X_train) of
        Inl e \<Rightarrow> Inl e
      | Inr rows \<Rightarrow>
     (case getitem rows l of
        Inl e \<Rightarrow> Inl e
      | Inr col \<Rightarrow>
          Inr (st \<lparr> clfs := dict_set l (logreg_fit env ps X_train (map eq_one col)) (clfs st) \<rparr>)))))))"

text \<open>
  The two phases, task after task (\<^verbatim>\<open>n_jobs=1\<close>); a task that raises ends the run with
  what was fitted before it.
\<close>

fun run_tasks ::
  "(string \<Rightarrow> 'st \<Rightarrow> error + 'st) \<Rightarrow> string list \<Rightarrow> 'st \<Rightarrow> (error + unit) \<times> 'st" where
  "run_tasks task [] st = (Inr (), st)"
| "run_tasks task (l # ls) st =
     (case task l st of
        Inl e \<Rightarrow> (Inl e, st)
      | Inr st' \<Rightarrow> run_tasks task ls st')"

text \<open>\<^verbatim>\<open>['Level0'] + sorted([i for i in subtypeObjects if subtypeObjects[i].children], key=...)\<close>\<close>

definition parent_labels :: "subtype_objects \<Rightarrow> string list" where
  "parent_labels subtypeObjects =
     ''Level0'' # map fst (sort_key (\<lambda>(i, ob). level ob)
                            (filter (\<lambda>(i, ob). children ob \<noteq> []) subtypeObjects))"

text \<open>
  \<^verbatim>\<open>fit_classifier(ui)\<close> up to the assembly of the model: the outcome, and what has been
  fitted when it ends.
\<close>

definition fit_classifier ::
  "('sc, 'clf) fitters \<Rightarrow> ensembl \<Rightarrow> builtins \<Rightarrow> user_input \<Rightarrow> (error + unit) \<times> ('sc, 'clf) fitted" where
  "fit_classifier env db bi ui =
     (case check_hierarchy (hierarchy ui) of
        Inl e \<Rightarrow> (Inl e, nothing_fitted)
      | Inr u \<Rightarrow>
     (let subtypeObjects = genSubtypeObjsFromHierarchy env (hierarchy ui) in
      case check_training_inputs (samples ui) (sample_sheet ui) subtypeObjects of
        Inl e \<Rightarrow> (Inl e, nothing_fitted)
      | Inr u \<Rightarrow>
     (case gen_logreg_params bi (training_params ui) subtypeObjects of
        Inl e \<Rightarrow> (Inl e, nothing_fitted)
      | Inr logreg_params \<Rightarrow>
     (case run_tasks (create_scalers env db ui subtypeObjects) (parent_labels subtypeObjects)
             nothing_fitted of
        (Inl e, st) \<Rightarrow> (Inl e, st)
      | (Inr u, st) \<Rightarrow>
          run_tasks (performing_training env ui subtypeObjects logreg_params)
            (map fst subtypeObjects) st))))"

section \<open>A training run for the examples\<close>

text \<open>
  The hierarchy of the spec's scenario: A and B at level 1, A1 below A. The fitters of
  the examples build the subtype objects of that hierarchy and fit nothing of interest.
\<close>

definition small_table :: "(string, string) frame" where
  "small_table = \<lparr> index = [''A'', ''B'', ''A1''], columns = [''Parent''],
                   dat = (\<lambda>i j. [[[]], [[]], [''A'']] ! i ! j) \<rparr>"

definition example_fitters :: "(unit, unit) fitters" where
  "example_fitters =
     \<lparr> genSubtypeObjsFromHierarchy = (\<lambda>h. small_hierarchy),
       createScaler = (\<lambda>X. ()),
       scaleForTesting = (\<lambda>X sc. X),
       logreg_fit = (\<lambda>ps X y. ()) \<rparr>"

text \<open>The sheet of the spec's second scenario: s3 is positive for A1 and negative for A.\<close>

definition violating_sheet :: "(string, cell) frame" where
  "violating_sheet =
     \<lparr> index = [''s1'', ''s2'', ''s3''],
       columns = [''A'', ''B'', ''A1''],
       dat = (\<lambda>i j. [[Some 1, Some 0, Some 1],
                      [Some 0, Some 1, Some 0],
                      [Some 0, Some 0, Some 1]] ! i ! j) \<rparr>"

definition training_ui :: "(string, cell) frame \<Rightarrow> (string, cell) frame \<Rightarrow> user_input" where
  "training_ui X sheet =
     \<lparr> samples = X, gene_labels = ''ensembl'', mode = ''train'', sample_sheet = sheet,
       hierarchy = small_table, training_params = None, ui_filter = False \<rparr>"

text \<open>A counts matrix with a sample that the label sheet does not list, and one without
  a sample that the label sheet lists.\<close>

definition extra_counts :: "(string, cell) frame" where
  "extra_counts =
     \<lparr> index = [''s1'', ''s9'', ''s2''], columns = [''ENSG01''],
       dat = (\<lambda>i j. [[Some 10], [Some 5], [Some 1]] ! i ! j) \<rparr>"

definition fewer_counts :: "(string, cell) frame" where
  "fewer_counts =
     \<lparr> index = [''s1'', ''s2''], columns = [''ENSG01''],
       dat = (\<lambda>i j. [[Some 10], [Some 5]] ! i ! j) \<rparr>"

text \<open>A label sheet that lists a sample, s3, which the counts matrix \<open>fewer_counts\<close> lacks.\<close>

definition extra_sheet :: "(string, cell) frame" where
  "extra_sheet =
     \<lparr> index = [''s1'', ''s2'', ''s3''],
       columns = [''A'', ''B'', ''A1''],
       dat = (\<lambda>i j. [[Some 1, Some 0, Some 1],
                      [Some 0, Some 1, Some 0],
                      [Some 0, Some 1, Some 0]] ! i ! j) \<rparr>"

text \<open>The multiple calls of one sample, for the examples.\<close>

definition example_multi_calls :: "(string \<times> (string \<times> rat) list) list" where
  "example_multi_calls = [(''s1'', [(''A'', 52 / 100), (''B'', 49 / 100)])]"



section \<open>The state after the first loop of the conversion\<close>

text \<open>
  What the first loop of \<^verbatim>\<open>convert_symbols_to_ensembl\<close> establishes: every value of
  \<^verbatim>\<open>confirmed\<close> is a gene identifier, and every unconfirmed symbol is known to the
  annotation under a number of genes other than one.
\<close>

definition ids_only :: "confirmed_dict \<Rightarrow> bool" where
  "ids_only c \<longleftrightarrow> (\<forall>v \<in> snd ` set c. \<exists>g. v = GeneId g)"

definition ambiguous :: "ensembl \<Rightarrow> string list \<Rightarrow> bool" where
  "ambiguous db u \<longleftrightarrow> (\<forall>i \<in> set u. \<exists>z. genes_by_name db (upper i) = Some z \<and> length z \<noteq> 1)"

(*PROPERTIES*)

section \<open>Properties of the hierarchy validation\<close>

lemma index_of_None_iff: "index_of x xs = None \<longleftrightarrow> x \<notin> set xs"
  by (induction xs) auto

lemma count_le_one_iff_distinct: "(\<forall>l \<in> set xs. count_list xs l \<le> 1) \<longleftrightarrow> distinct xs"
  by (induction xs) (auto simp: count_list_0_iff)

lemma set_value_counts: "set (value_counts xs) = (\<lambda>l. (l, count_list xs l)) ` set xs"
  by (simp add: value_counts_def)

lemma duplicate_labels_Nil_iff: "duplicate_labels xs = [] \<longleftrightarrow> distinct xs"
  unfolding duplicate_labels_def filter_empty_conv set_value_counts
  using count_le_one_iff_distinct [of xs] by (auto simp: not_less)

lemma getitem_present: "name \<in> set (columns f) \<Longrightarrow> \<exists>ps. getitem f name = Inr ps"
  by (cases "index_of name (columns f)") (auto simp: getitem_def index_of_None_iff)

lemma find_SomeD: "List.find P xs = Some x \<Longrightarrow> x \<in> set xs \<and> P x"
  by (induction xs) (auto split: if_splits)

lemma check_hierarchy_fails_iff:
  "(\<exists>e. check_hierarchy h = Inl e) \<longleftrightarrow>
     parent_column_absent h \<or> label_duplicated h \<or> dangling_parent h"
proof (cases "''Parent'' \<in> set (columns h)")
  case False
  then show ?thesis by (simp add: check_hierarchy_def parent_column_absent_def)
next
  case True
  then obtain ps where ps: "getitem h ''Parent'' = Inr ps"
    using getitem_present by blast
  show ?thesis
  proof (cases "distinct (index h)")
    case False
    then obtain l c rest where "duplicate_labels (index h) = (l, c) # rest"
      using duplicate_labels_Nil_iff [of "index h"] by (cases "duplicate_labels (index h)") auto
    with True False show ?thesis
      by (simp add: check_hierarchy_def label_duplicated_def)
  next
    case d: True
    then have "duplicate_labels (index h) = []" by (simp add: duplicate_labels_Nil_iff)
    with True d ps show ?thesis
      by (auto simp: check_hierarchy_def parent_column_absent_def label_duplicated_def
          dangling_parent_def parent_entries_def find_None_iff split: option.splits
          dest: find_SomeD)
  qed
qed

lemma check_hierarchy_error_kind: "check_hierarchy h = Inl e \<Longrightarrow> StructuralError e"
  by (auto simp: check_hierarchy_def getitem_def index_of_None_iff
      split: if_splits list.splits sum.splits option.splits)

lemma check_hierarchy_passes_iff:
  "check_hierarchy h = Inr () \<longleftrightarrow>
     \<not> (parent_column_absent h \<or> label_duplicated h \<or> dangling_parent h)"
  using check_hierarchy_fails_iff [of h] by (cases "check_hierarchy h") auto

text \<open>
  C3: \<^verbatim>\<open>check_hierarchy\<close> fails, with a StructuralError, exactly when the Parent column is
  absent, or a label occurs more than once in the label column, or a non-empty parent
  entry is not a label; a table with none of the three defects passes.
\<close>

theorem check_hierarchy_exact:
  "((\<exists>e. check_hierarchy h = Inl e \<and> StructuralError e) \<longleftrightarrow>
      (parent_column_absent h \<or> label_duplicated h \<or> dangling_parent h)) \<and>
   (check_hierarchy h = Inr () \<longleftrightarrow>
      \<not> (parent_column_absent h \<or> label_duplicated h \<or> dangling_parent h))"
  using check_hierarchy_fails_iff [of h] check_hierarchy_passes_iff [of h]
    check_hierarchy_error_kind [of h] by blast

theorem check_hierarchy_exact_witness:
  "dangling_parent dangling_table \<and>
   (\<exists>e. check_hierarchy dangling_table = Inl e \<and> StructuralError e) \<and>
   check_hierarchy dangling_table \<noteq> Inr ()"
proof -
  have d: "dangling_parent dangling_table"
    by (simp add: dangling_parent_def parent_entries_def getitem_def col_values_def
        dangling_table_def)
  with check_hierarchy_exact [of dangling_table] show ?thesis by blast
qed

text \<open>
  C2, as amended: \<^verbatim>\<open>check_hierarchy\<close> has no check for cycles. A table whose parent
  references form a cycle is rejected (with a StructuralError) only when it also lacks the
  Parent column, repeats a label or has a dangling parent; every other cyclic table is
  accepted.
\<close>

theorem check_hierarchy_cyclic:
  assumes "cyclic h"
  shows "(\<not> (parent_column_absent h \<or> label_duplicated h \<or> dangling_parent h)
            \<longrightarrow> check_hierarchy h = Inr ()) \<and>
         (parent_column_absent h \<or> label_duplicated h \<or> dangling_parent h
            \<longrightarrow> (\<exists>e. check_hierarchy h = Inl e \<and> StructuralError e))"
  using check_hierarchy_fails_iff [of h] check_hierarchy_passes_iff [of h]
    check_hierarchy_error_kind [of h] by blast

lemma two_cycle_cyclic: "cyclic two_cycle"
  by (simp add: two_cycle_def cyclic_def table_parent_def getitem_def col_values_def)

lemma two_cycle_no_defect:
  "\<not> parent_column_absent two_cycle \<and> \<not> label_duplicated two_cycle \<and> \<not> dangling_parent two_cycle"
  by (simp add: two_cycle_def parent_column_absent_def label_duplicated_def
      dangling_parent_def parent_entries_def getitem_def col_values_def)

theorem check_hierarchy_cyclic_witness:
  "cyclic two_cycle \<and> \<not> parent_column_absent two_cycle \<and> \<not> label_duplicated two_cycle \<and>
   \<not> dangling_parent two_cycle \<and> check_hierarchy two_cycle = Inr ()"
  using check_hierarchy_cyclic [OF two_cycle_cyclic] two_cycle_cyclic two_cycle_no_defect
  by blast

text \<open>
  The claim as stated fails on the table with label A of parent B and label B of parent A:
  it is cyclic and \<^verbatim>\<open>check_hierarchy\<close> accepts it.
\<close>

theorem check_hierarchy_cycle_accepted:
  "cyclic two_cycle \<and> check_hierarchy two_cycle = Inr ()"
  by (simp add: check_hierarchy_def two_cycle_def cyclic_def table_parent_def getitem_def
      col_values_def duplicate_labels_def value_counts_def)

section \<open>Properties of the checks of the training inputs\<close>
























lemma fit_classifier_aborts:
  assumes "check_training_inputs (samples ui) (sample_sheet ui)
             (genSubtypeObjsFromHierarchy env (hierarchy ui)) = Inl e"
  shows "\<exists>e'. fit_classifier env db bi ui = (Inl e', nothing_fitted) \<and>
              (check_hierarchy (hierarchy ui) = Inr () \<longrightarrow> e' = e)"
  using assms by (cases "check_hierarchy (hierarchy ui)") (auto simp: fit_classifier_def)



lemma small_table_ok: "check_hierarchy small_table = Inr ()"
  by (simp add: check_hierarchy_def small_table_def getitem_def col_values_def
      duplicate_labels_def value_counts_def)



lemma violating_run:
  "fit_classifier example_fitters example_db same_type_builtins (training_ui example_counts violating_sheet)
     = (Inl (NotPositiveForParent ''s3'' ''A1'' ''A''), (nothing_fitted :: (unit, unit) fitted))"
  by (simp add: fit_classifier_def training_ui_def small_table_ok example_fitters_def
      check_training_inputs_def example_counts_def violating_sheet_def duplicate_labels_def
      value_counts_def small_hierarchy_def py_max_def positive_labels_def row_values_def gt_half_def)



lemma find_first:
  "List.find P xs = Some s \<Longrightarrow> \<exists>pre post. xs = pre @ s # post \<and> (\<forall>x \<in> set pre. \<not> P x) \<and> P s"
proof (induction xs)
  case Nil
  then show ?case by simp
next
  case (Cons a xs)
  show ?case
  proof (cases "P a")
    case True
    with Cons.prems have "a = s" by simp
    with True have "a # xs = [] @ s # xs \<and> (\<forall>x \<in> set []. \<not> P x) \<and> P s" by simp
    then show ?thesis by blast
  next
    case False
    with Cons obtain pre post where "xs = pre @ s # post" "\<forall>x \<in> set pre. \<not> P x" "P s"
      by auto
    with False have "a # xs = (a # pre) @ s # post \<and> (\<forall>x \<in> set (a # pre). \<not> P x) \<and> P s"
      by simp
    then show ?thesis by blast
  qed
qed

lemma unlisted_sample_rejected:
  assumes "\<not> samples_listed X sheet"
  shows "\<exists>s pre post. check_training_inputs X sheet objs = Inl (SampleNotInSheet s) \<and>
           index X = pre @ s # post \<and> set pre \<subseteq> set (index sheet) \<and> s \<notin> set (index sheet)"
proof -
  from assms obtain s where s: "List.find (\<lambda>i. i \<notin> set (index sheet)) (index X) = Some s"
    by (cases "List.find (\<lambda>i. i \<notin> set (index sheet)) (index X)")
       (auto simp: samples_listed_def find_None_iff)
  from find_first [OF s] obtain pre post where
    "index X = pre @ s # post" "\<forall>x \<in> set pre. \<not> x \<notin> set (index sheet)" "s \<notin> set (index sheet)"
    by blast
  moreover from s have "check_training_inputs X sheet objs = Inl (SampleNotInSheet s)"
    by (simp add: check_training_inputs_def)
  ultimately show ?thesis by blast
qed

lemma listed_samples_irrelevant:
  assumes "samples_listed X sheet"
  shows "check_training_inputs X sheet objs = check_training_inputs (X \<lparr> index := [] \<rparr>) sheet objs"
proof -
  from assms have "List.find (\<lambda>i. i \<notin> set (index sheet)) (index X) = None"
    by (auto simp: samples_listed_def find_None_iff)
  then show ?thesis by (simp add: check_training_inputs_def)
qed

text \<open>
  C4, as amended: the check of the sample identifiers goes one way. A sample of the
  counts matrix that the label sheet does not list makes \<^verbatim>\<open>check_training_inputs\<close> exit,
  naming the first such sample, and training ends with nothing fitted. When every sample
  of the counts matrix is listed, the outcome of the check does not depend on the samples
  of the counts matrix at all: a sample that only the label sheet lists is not looked for.
\<close>

theorem sample_check_one_way:
  assumes "objs = genSubtypeObjsFromHierarchy env (hierarchy ui)"
    and "check_hierarchy (hierarchy ui) = Inr ()"
  shows "(\<not> samples_listed (samples ui) (sample_sheet ui) \<longrightarrow>
            (\<exists>s pre post.
               check_training_inputs (samples ui) (sample_sheet ui) objs = Inl (SampleNotInSheet s) \<and>
               fit_classifier env db bi ui = (Inl (SampleNotInSheet s), nothing_fitted) \<and>
               index (samples ui) = pre @ s # post \<and>
               set pre \<subseteq> set (index (sample_sheet ui)) \<and>
               s \<notin> set (index (sample_sheet ui)))) \<and>
         (samples_listed (samples ui) (sample_sheet ui) \<longrightarrow>
            check_training_inputs (samples ui) (sample_sheet ui) objs
              = check_training_inputs ((samples ui) \<lparr> index := [] \<rparr>) (sample_sheet ui) objs)"
proof (intro conjI impI)
  assume "\<not> samples_listed (samples ui) (sample_sheet ui)"
  from unlisted_sample_rejected [OF this, of objs] obtain s pre post where
    *: "check_training_inputs (samples ui) (sample_sheet ui) objs = Inl (SampleNotInSheet s)"
    "index (samples ui) = pre @ s # post" "set pre \<subseteq> set (index (sample_sheet ui))"
    "s \<notin> set (index (sample_sheet ui))" by blast
  from fit_classifier_aborts [of ui env _ db bi] *(1) assms
  have "fit_classifier env db bi ui = (Inl (SampleNotInSheet s), nothing_fitted)" by auto
  with * show "\<exists>s pre post.
               check_training_inputs (samples ui) (sample_sheet ui) objs = Inl (SampleNotInSheet s) \<and>
               fit_classifier env db bi ui = (Inl (SampleNotInSheet s), nothing_fitted) \<and>
               index (samples ui) = pre @ s # post \<and>
               set pre \<subseteq> set (index (sample_sheet ui)) \<and>
               s \<notin> set (index (sample_sheet ui))" by blast
next
  assume "samples_listed (samples ui) (sample_sheet ui)"
  then show "check_training_inputs (samples ui) (sample_sheet ui) objs
              = check_training_inputs ((samples ui) \<lparr> index := [] \<rparr>) (sample_sheet ui) objs"
    by (rule listed_samples_irrelevant)
qed

theorem sample_check_one_way_witness:
  "\<not> samples_listed extra_counts example_sheet \<and>
   fit_classifier example_fitters example_db same_type_builtins (training_ui extra_counts example_sheet)
     = (Inl (SampleNotInSheet ''s9''), (nothing_fitted :: (unit, unit) fitted)) \<and>
   samples_listed fewer_counts extra_sheet \<and>
   check_training_inputs fewer_counts extra_sheet small_hierarchy
     = check_training_inputs (fewer_counts \<lparr> index := [] \<rparr>) extra_sheet small_hierarchy"
proof -
  have v: "samples (training_ui X sh) = X" "sample_sheet (training_ui X sh) = sh"
    "hierarchy (training_ui X sh) = small_table" for X sh
    by (simp_all add: training_ui_def)
  have gen: "small_hierarchy = genSubtypeObjsFromHierarchy example_fitters small_table"
    by (simp add: example_fitters_def)
  have n: "\<not> samples_listed extra_counts example_sheet"
    by (simp add: samples_listed_def extra_counts_def example_sheet_def)
  have y: "samples_listed fewer_counts extra_sheet"
    by (simp add: samples_listed_def fewer_counts_def extra_sheet_def)
  from sample_check_one_way [where ui = "training_ui extra_counts example_sheet"
        and env = example_fitters and objs = small_hierarchy and db = example_db
        and bi = same_type_builtins, unfolded v, OF gen small_table_ok] n
  obtain s pre post where
    s: "fit_classifier example_fitters example_db same_type_builtins (training_ui extra_counts example_sheet)
          = (Inl (SampleNotInSheet s), (nothing_fitted :: (unit, unit) fitted))"
      "index extra_counts = pre @ s # post" "set pre \<subseteq> set (index example_sheet)"
      "s \<notin> set (index example_sheet)"
    by blast
  have "s = ''s9''"
  proof -
    from s(2) have "s \<in> set (index extra_counts)" by simp
    with s(4) show ?thesis by (auto simp: extra_counts_def example_sheet_def)
  qed
  moreover have "check_training_inputs fewer_counts extra_sheet small_hierarchy
     = check_training_inputs (fewer_counts \<lparr> index := [] \<rparr>) extra_sheet small_hierarchy"
    using sample_check_one_way [where ui = "training_ui fewer_counts extra_sheet"
        and env = example_fitters and objs = small_hierarchy and db = example_db
        and bi = same_type_builtins, unfolded v, OF gen small_table_ok] y
    by blast
  ultimately show ?thesis using n y s(1) by simp
qed

text \<open>
  The claim as stated fails where the label sheet lists a sample, s3, that the counts
  matrix lacks: the check passes and the run reaches its end.
\<close>

theorem sheet_sample_missing_accepted:
  "''s3'' \<in> set (index extra_sheet) \<and> ''s3'' \<notin> set (index fewer_counts) \<and>
   check_training_inputs fewer_counts extra_sheet small_hierarchy = Inr () \<and>
   fst (fit_classifier example_fitters example_db same_type_builtins
          (training_ui fewer_counts extra_sheet)) = Inr ()"
  by (simp add: fit_classifier_def training_ui_def small_table_ok example_fitters_def
      check_training_inputs_def fewer_counts_def extra_sheet_def duplicate_labels_def
      value_counts_def small_hierarchy_def py_max_def positive_labels_def row_values_def gt_half_def
      gen_logreg_params_def parent_labels_def create_scalers_def scaling_context_def
      nothing_fitted_def performing_training_def getitem_def col_values_def loc_def eq_one_def
      Let_def)

section \<open>Properties of the table of multiple calls\<close>

lemma write_rows_error:
  "fst (write_rows mc m order rows) = Inl e \<Longrightarrow> \<exists>s. e = KeyError s"
  by (induction order arbitrary: rows) (auto simp: Let_def split: option.splits)

lemma py_max_nonempty: "xs \<noteq> [] \<Longrightarrow> \<exists>m. py_max xs = Inr m"
  by (cases xs) (auto simp: py_max_def)

lemma gen_multicall_csv_error:
  "fst (gen_multicall_csv mc order path fs) = Inl e \<Longrightarrow> \<exists>s. e = KeyError s"
proof (cases "mc = []")
  case True
  then show "fst (gen_multicall_csv mc order path fs) = Inl e \<Longrightarrow> \<exists>s. e = KeyError s"
    by (simp add: gen_multicall_csv_def)
next
  case False
  then obtain m where m: "py_max (map (\<lambda>(i, calls). length calls) mc) = Inr m"
    using py_max_nonempty [of "map (\<lambda>(i, calls). length calls) mc"] by auto
  assume "fst (gen_multicall_csv mc order path fs) = Inl e"
  with False m have "fst (write_rows mc m order [header_row m]) = Inl e"
    by (simp add: gen_multicall_csv_def split: prod.splits)
  then show "\<exists>s. e = KeyError s" by (rule write_rows_error)
qed

text \<open>
  C10: called with an empty mapping of multiple calls, \<^verbatim>\<open>gen_multicall_csv\<close> returns
  \<^verbatim>\<open>None\<close> and leaves the files as they are. The only exception it can raise is the
  KeyError of a sample that has no entry: the ValueError of \<^verbatim>\<open>max\<close> on an empty list
  never occurs, for on a non-empty mapping the maximum exists (and the file is opened).
\<close>

theorem gen_multicall_csv_empty:
  "gen_multicall_csv [] sample_order path fs = (Inr (), fs) \<and>
   (\<forall>multi_calls e. fst (gen_multicall_csv multi_calls sample_order path fs) = Inl e
       \<longrightarrow> (\<exists>s. e = KeyError s)) \<and>
   (\<forall>multi_calls. multi_calls \<noteq> [] \<longrightarrow>
       (\<exists>m. py_max (map (\<lambda>(i, calls). length calls) multi_calls) = Inr m) \<and>
       snd (gen_multicall_csv multi_calls sample_order path fs) path \<noteq> None)"
proof (intro conjI allI impI)
  show "gen_multicall_csv [] sample_order path fs = (Inr (), fs)"
    by (simp add: gen_multicall_csv_def)
next
  fix multi_calls :: "(string \<times> (string \<times> 'a) list) list" and e
  assume "fst (gen_multicall_csv multi_calls sample_order path fs) = Inl e"
  then show "\<exists>s. e = KeyError s" by (rule gen_multicall_csv_error)
next
  fix multi_calls :: "(string \<times> (string \<times> 'a) list) list"
  assume ne: "multi_calls \<noteq> []"
  then show m: "\<exists>m. py_max (map (\<lambda>(i, calls). length calls) multi_calls) = Inr m"
    using py_max_nonempty [of "map (\<lambda>(i, calls). length calls) multi_calls"] by auto
  with ne show "snd (gen_multicall_csv multi_calls sample_order path fs) path \<noteq> None"
    by (auto simp: gen_multicall_csv_def split: prod.splits)
qed


section \<open>Properties of the hyperparameters\<close>














theorem gen_multicall_csv_empty_witness:
  "example_multi_calls \<noteq> [] \<and>
   snd (gen_multicall_csv example_multi_calls [''s1''] ''multi_calls.csv'' Map.empty)
     ''multi_calls.csv'' \<noteq> None \<and>
   gen_multicall_csv ([] :: (string \<times> (string \<times> rat) list) list) [''s1''] ''multi_calls.csv''
     Map.empty = (Inr (), Map.empty)"
proof -
  have ne: "example_multi_calls \<noteq> []" by (simp add: example_multi_calls_def)
  from gen_multicall_csv_empty [of "[''s1'']" "''multi_calls.csv''" "Map.empty :: rat files"] ne
  show ?thesis by blast
qed

section \<open>Properties of the feature selection\<close>

lemma filter_err_total:
  assumes "\<forall>x \<in> set xs. \<exists>b. p x = Inr b"
  shows "filter_err p xs = Inr (filter (\<lambda>x. p x = Inr True) xs)"
  using assms
proof (induction xs)
  case Nil
  then show ?case by simp
next
  case (Cons x xs)
  then obtain b where "p x = Inr b" by auto
  with Cons show ?case by (cases b) auto
qed

lemma annotation_filter_exact:
  assumes xist: "genes_by_name db ''XIST'' = Some (xist # rest)"
  shows "\<exists>r. annotation_filter db cands = Inr r \<and>
           (\<forall>i. i \<in> set r \<longleftrightarrow>
              i \<in> set cands \<and> i \<notin> set (gene_ids db ''Y'') \<and> i \<noteq> gene_id xist \<and>
              (\<exists>g. gene_by_id db i = Some g \<and> biotype g = ''protein_coding'' \<and>
                   contig g \<noteq> ''MT''))"
proof -
  let ?known = "filter (\<lambda>i. i \<notin> set (filter (\<lambda>i. gene_by_id db i = None) cands)) cands"
  let ?noY = "filter (\<lambda>i. i \<notin> set (gene_ids db ''Y'' @ [gene_id xist])) ?known"
  let ?bio = "\<lambda>i. case gene_by_id db i of
                     None \<Rightarrow> Inl (ValueError i)
                   | Some g \<Rightarrow> Inr (biotype g \<in> set categories_to_keep)"
  let ?mt = "\<lambda>i. case gene_by_id db i of
                    None \<Rightarrow> Inl (ValueError i)
                  | Some g \<Rightarrow> Inr (contig g = ''MT'')"
  have known: "\<forall>i \<in> set ?noY. \<exists>g. gene_by_id db i = Some g" by auto
  then have b: "filter_err ?bio ?noY = Inr (filter (\<lambda>x. ?bio x = Inr True) ?noY)"
    by (intro filter_err_total) (auto split: option.splits)
  let ?coding = "filter (\<lambda>x. ?bio x = Inr True) ?noY"
  from known have "\<forall>i \<in> set ?coding. \<exists>g. gene_by_id db i = Some g" by auto
  then have m: "filter_err ?mt ?coding = Inr (filter (\<lambda>x. ?mt x = Inr True) ?coding)"
    by (intro filter_err_total) (auto split: option.splits)
  let ?MT = "filter (\<lambda>x. ?mt x = Inr True) ?coding"
  have r: "annotation_filter db cands = Inr (filter (\<lambda>i. i \<notin> set ?MT) ?coding)"
    unfolding annotation_filter_def Let_def xist using b m by simp
  have "i \<in> set (filter (\<lambda>i. i \<notin> set ?MT) ?coding) \<longleftrightarrow>
              i \<in> set cands \<and> i \<notin> set (gene_ids db ''Y'') \<and> i \<noteq> gene_id xist \<and>
              (\<exists>g. gene_by_id db i = Some g \<and> biotype g = ''protein_coding'' \<and>
                   contig g \<noteq> ''MT'')" for i
    by (cases "gene_by_id db i") (auto simp: categories_to_keep_def)
  with r show ?thesis by blast
qed

lemma filter_genes_within:
  assumes "filter_genes db X m = Inr genes"
  shows "\<exists>a. annotation_filter db (columns X) = Inr a \<and> set genes \<subseteq> set a"
  using assms
  by (auto simp: filter_genes_def abundance_filter_def split: sum.splits)

text \<open>
  C7, as amended: after the steps of \<^verbatim>\<open>filter_genes\<close> that consult the annotation, the
  surviving features are exactly the candidates that the annotation knows, that are not
  among the genes of contig Y, that are not the gene XIST, whose biotype is
  protein_coding and whose contig is not MT; the genes \<^verbatim>\<open>filter_genes\<close> returns are among
  them. Location on the X chromosome is no reason for removal.
\<close>

theorem annotation_steps_remove:
  assumes "genes_by_name db ''XIST'' = Some (xist # rest)"
  shows "\<exists>r. annotation_filter db candidate_genes = Inr r \<and>
           (\<forall>i. i \<in> set r \<longleftrightarrow>
              i \<in> set candidate_genes \<and> i \<notin> set (gene_ids db ''Y'') \<and> i \<noteq> gene_id xist \<and>
              (\<exists>g. gene_by_id db i = Some g \<and> biotype g = ''protein_coding'' \<and>
                   contig g \<noteq> ''MT'')) \<and>
           (\<forall>m genes. filter_genes db X m = Inr genes \<and> candidate_genes = columns X
              \<longrightarrow> set genes \<subseteq> set r)"
proof -
  from annotation_filter_exact [OF assms, of candidate_genes] obtain r where
    r: "annotation_filter db candidate_genes = Inr r"
    "\<And>i. i \<in> set r \<longleftrightarrow>
              i \<in> set candidate_genes \<and> i \<notin> set (gene_ids db ''Y'') \<and> i \<noteq> gene_id xist \<and>
              (\<exists>g. gene_by_id db i = Some g \<and> biotype g = ''protein_coding'' \<and>
                   contig g \<noteq> ''MT'')" by blast
  have "set genes \<subseteq> set r" if "filter_genes db X m = Inr genes" "candidate_genes = columns X"
    for m genes
    using filter_genes_within [OF that(1)] r(1) that(2) by auto
  with r show ?thesis by blast
qed

lemma example_xist:
  "genes_by_name example_db ''XIST''
     = Some [\<lparr> gene_id = ''ENSG03'', biotype = ''lncRNA'', contig = ''X'' \<rparr>]"
  by (simp add: example_db_def example_names_def example_genes_def)

lemma example_annotation:
  "annotation_filter example_db
     [''ENSG01'', ''ENSG02'', ''ENSG03'', ''ENSG04'', ''ENSG05'', ''ENSG99'']
   = Inr [''ENSG01'', ''ENSG02'']"
  by code_simp

theorem annotation_steps_remove_witness:
  "genes_by_name example_db ''XIST''
     = Some [\<lparr> gene_id = ''ENSG03'', biotype = ''lncRNA'', contig = ''X'' \<rparr>] \<and>
   (\<exists>r. annotation_filter example_db [''ENSG01'', ''ENSG04'', ''ENSG05''] = Inr r \<and>
        ''ENSG01'' \<in> set r \<and> ''ENSG04'' \<notin> set r \<and> ''ENSG05'' \<notin> set r)"
proof -
  from annotation_steps_remove [OF example_xist, of "[''ENSG01'', ''ENSG04'', ''ENSG05'']"]
  obtain r where
    r: "annotation_filter example_db [''ENSG01'', ''ENSG04'', ''ENSG05''] = Inr r"
    "\<And>i. i \<in> set r \<longleftrightarrow>
        i \<in> set [''ENSG01'', ''ENSG04'', ''ENSG05''] \<and> i \<notin> set (gene_ids example_db ''Y'') \<and>
        i \<noteq> gene_id \<lparr> gene_id = ''ENSG03'', biotype = ''lncRNA'', contig = ''X'' \<rparr> \<and>
        (\<exists>g. gene_by_id example_db i = Some g \<and> biotype g = ''protein_coding'' \<and>
             contig g \<noteq> ''MT'')" by blast
  have "''ENSG01'' \<in> set r" "''ENSG04'' \<notin> set r" "''ENSG05'' \<notin> set r"
    unfolding r(2) by (simp_all add: example_db_def example_genes_def)
  with r(1) example_xist show ?thesis by blast
qed

text \<open>
  The claim as stated fails on a protein-coding gene of contig X: ENSG02 survives the
  annotation steps, and the whole of \<^verbatim>\<open>filter_genes\<close>.
\<close>

theorem x_chromosome_gene_survives:
  "map_option contig (gene_by_id example_db ''ENSG02'') = Some ''X'' \<and>
   annotation_filter example_db
     [''ENSG01'', ''ENSG02'', ''ENSG03'', ''ENSG04'', ''ENSG05'', ''ENSG99'']
     = Inr [''ENSG01'', ''ENSG02''] \<and>
   filter_genes example_db example_counts 2 = Inr [''ENSG02'']"
  by code_simp

section \<open>The abundance step of the feature selection\<close>















section \<open>The conversion of gene symbols\<close>

lemma dict_set_keys: "fst ` set (dict_set k v d) = insert k (fst ` set d)"
proof (induction d)
  case Nil
  then show ?case by simp
next
  case (Cons a d)
  obtain k' v' where a: "a = (k', v')" by (cases a)
  show ?case
  proof (cases "k = k'")
    case True
    then show ?thesis by (simp add: a)
  next
    case False
    then show ?thesis using Cons.IH by (simp add: a insert_commute)
  qed
qed

lemma dict_set_values: "snd ` set (dict_set k v d) \<subseteq> insert v (snd ` set d)"
proof (induction d)
  case Nil
  then show ?case by simp
next
  case (Cons a d)
  obtain k' v' where a: "a = (k', v')" by (cases a)
  show ?case
  proof (cases "k = k'")
    case True
    then show ?thesis by (simp add: a subset_insertI2)
  next
    case False
    then show ?thesis using Cons.IH by (auto simp: a)
  qed
qed

lemma dict_set_distinct: "distinct (map fst d) \<Longrightarrow> distinct (map fst (dict_set k v d))"
proof (induction d)
  case Nil
  then show ?case by simp
next
  case (Cons a d)
  obtain k' v' where a: "a = (k', v')" by (cases a)
  from Cons have "distinct (map fst (dict_set k v d))" by simp
  moreover have "set (map fst (dict_set k v d)) = insert k (fst ` set d)"
    using dict_set_keys [of k v d] by simp
  ultimately show ?case using Cons.prems a by auto
qed

lemma dict_set_length: "length (dict_set k v d) \<le> Suc (length d)"
  by (induction d) auto

lemma symbol_loop_keys:
  "symbol_loop db syms (c, u, n) = (c', u', n') \<Longrightarrow>
   fst ` set c' \<union> set u' \<union> set n' = fst ` set c \<union> set u \<union> set n \<union> set syms"
proof (induction syms arbitrary: c u n)
  case Nil
  then show ?case by simp
next
  case (Cons i rest)
  show ?case
  proof (cases "genes_by_name db (upper i)")
    case None
    with Cons.prems have "symbol_loop db rest (c, u, n @ [i]) = (c', u', n')" by simp
    from Cons.IH [OF this] show ?thesis by auto
  next
    case (Some z)
    show ?thesis
    proof (cases "length z = 1")
      case True
      with Some Cons.prems
      have "symbol_loop db rest (dict_set i (GeneId (gene_id (hd z))) c, u, n) = (c', u', n')"
        by simp
      from Cons.IH [OF this] show ?thesis by (auto simp: dict_set_keys)
    next
      case False
      with Some Cons.prems have "symbol_loop db rest (c, u @ [i], n) = (c', u', n')" by simp
      from Cons.IH [OF this] show ?thesis by auto
    qed
  qed
qed

lemma symbol_loop_disjoint:
  "symbol_loop db syms (c, u, n) = (c', u', n') \<Longrightarrow>
   set n' \<subseteq> set n \<union> set syms \<and> set u' \<subseteq> set u \<union> set syms"
proof (induction syms arbitrary: c u n)
  case Nil
  then show ?case by simp
next
  case (Cons i rest)
  show ?case
  proof (cases "genes_by_name db (upper i)")
    case None
    with Cons.prems have "symbol_loop db rest (c, u, n @ [i]) = (c', u', n')" by simp
    from Cons.IH [OF this] show ?thesis by auto
  next
    case (Some z)
    show ?thesis
    proof (cases "length z = 1")
      case True
      with Some Cons.prems
      have "symbol_loop db rest (dict_set i (GeneId (gene_id (hd z))) c, u, n) = (c', u', n')"
        by simp
      from Cons.IH [OF this] show ?thesis by auto
    next
      case False
      with Some Cons.prems have "symbol_loop db rest (c, u @ [i], n) = (c', u', n')" by simp
      from Cons.IH [OF this] show ?thesis by auto
    qed
  qed
qed

lemma symbol_loop_invariant:
  "symbol_loop db syms (c, u, n) = (c', u', n') \<Longrightarrow>
   ids_only c \<Longrightarrow> ambiguous db u \<Longrightarrow> distinct (map fst c) \<Longrightarrow>
   ids_only c' \<and> ambiguous db u' \<and> distinct (map fst c') \<and>
   length c' \<le> length c + length syms"
proof (induction syms arbitrary: c u n)
  case Nil
  then show ?case by simp
next
  case (Cons i rest)
  show ?case
  proof (cases "genes_by_name db (upper i)")
    case None
    with Cons.prems(1) have "symbol_loop db rest (c, u, n @ [i]) = (c', u', n')" by simp
    from Cons.IH [OF this Cons.prems(2-4)] show ?thesis by simp
  next
    case (Some z)
    show ?thesis
    proof (cases "length z = 1")
      case True
      let ?c = "dict_set i (GeneId (gene_id (hd z))) c"
      from True Some Cons.prems(1) have l: "symbol_loop db rest (?c, u, n) = (c', u', n')"
        by simp
      have "ids_only ?c"
        using Cons.prems(2) dict_set_values [of i "GeneId (gene_id (hd z))" c]
        unfolding ids_only_def by blast
      from Cons.IH [OF l this Cons.prems(3) dict_set_distinct [OF Cons.prems(4)]]
        dict_set_length [of i "GeneId (gene_id (hd z))" c]
      show ?thesis by simp
    next
      case False
      with Some Cons.prems(1) have l: "symbol_loop db rest (c, u @ [i], n) = (c', u', n')"
        by simp
      have "ambiguous db (u @ [i])"
        using Cons.prems(3) Some False unfolding ambiguous_def by auto
      from Cons.IH [OF l Cons.prems(2) this Cons.prems(4)] show ?thesis by simp
    qed
  qed
qed

text \<open>
  After the first loop no value of \<^verbatim>\<open>confirmed\<close> is a Gene object, so a pass of the
  elimination removes no candidate and fixes no symbol.
\<close>

lemma elim_pass_fixes_nothing:
  "ids_only c \<Longrightarrow> ambiguous db u \<Longrightarrow> elim_pass db u (c, u0, f0) = Inr (c, u0 @ u, f0)"
proof (induction u arbitrary: u0)
  case Nil
  then show ?case by simp
next
  case (Cons i rest)
  from Cons.prems(2) obtain z where
    z: "genes_by_name db (upper i) = Some z" "length z \<noteq> 1" and rest: "ambiguous db rest"
    unfolding ambiguous_def by auto
  from Cons.prems(1) have "filter (\<lambda>g. GeneObj g \<notin> set (map snd c)) z = z"
    unfolding ids_only_def by (auto simp: filter_id_conv)
  with z Cons.IH [OF Cons.prems(1) rest, of "u0 @ [i]"] show ?case by simp
qed

lemma elim_loop_one_pass:
  assumes "ids_only c" and "ambiguous db u"
  shows "elim_loop db c u = Inr (c, u)"
  using elim_pass_fixes_nothing [OF assms, of "[]" 0]
  by (subst elim_loop.simps) simp

lemma first_loop_invariant:
  assumes "symbol_loop db symb_list ([], [], []) = (c, u, n)"
  shows "ids_only c" and "ambiguous db u" and "distinct (map fst c)"
    and "length c \<le> length symb_list"
proof -
  have "ids_only c \<and> ambiguous db u \<and> distinct (map fst c) \<and>
        length c \<le> length ([] :: confirmed_dict) + length symb_list"
    by (rule symbol_loop_invariant [OF assms]) (simp_all add: ids_only_def ambiguous_def)
  then show "ids_only c" and "ambiguous db u" and "distinct (map fst c)"
    and "length c \<le> length symb_list"
    by simp_all
qed

lemma convert_symbols_result:
  assumes "symbol_loop db symb_list ([], [], []) = (c, u, n)"
  shows "convert_symbols_to_ensembl db symb_list = Inr \<lparr> confirmed = c, unconfirmed = u @ n \<rparr>"
proof -
  note inv = first_loop_invariant [OF assms]
  have "elim_loop db c u = Inr (c, u)" by (rule elim_loop_one_pass [OF inv(1,2)])
  then show ?thesis unfolding convert_symbols_to_ensembl_def assms by simp
qed

lemma first_pass_final:
  assumes "symbol_loop db symb_list ([], [], []) = (c, u, n)"
  shows "elim_pass db u (c, [], 0) = Inr (c, u, 0)"
  using elim_pass_fixes_nothing [OF first_loop_invariant(1,2) [OF assms], of "[]" 0] by simp

lemma first_loop_partition:
  assumes "symbol_loop db symb_list ([], [], []) = (c, u, n)"
  shows "fst ` set c \<union> set u \<union> set n = set symb_list"
  using symbol_loop_keys [OF assms] by simp

text \<open>
  Claim C9. For every list of gene symbols \<^verbatim>\<open>convert_symbols_to_ensembl\<close> returns: the
  first pass of the process of elimination fixes no symbol and is therefore the last one
  (in general a pass that fixes \<open>f\<close> symbols shortens the list of unconfirmed symbols by
  \<open>f\<close>, which is why the loop ends), the confirmed mapping has distinct keys and at most as many entries as there are
  input symbols, and a symbol is in the input exactly when it is a key of the confirmed
  mapping or an element of the unconfirmed list.
\<close>

theorem convert_symbols_terminates:
  "\<exists>r c u n.
     symbol_loop db symb_list ([], [], []) = (c, u, n) \<and>
     elim_pass db u (c, [], 0) = Inr (c, u, 0) \<and>
     elim_loop db c u = Inr (c, u) \<and>
     (\<forall>c0 u0 c' u2 f. elim_pass db u0 (c0, [], 0) = Inr (c', u2, f) \<longrightarrow>
        length u2 + f = length u0) \<and>
     convert_symbols_to_ensembl db symb_list = Inr r \<and>
     confirmed r = c \<and> unconfirmed r = u @ n \<and>
     distinct (map fst (confirmed r)) \<and>
     length (confirmed r) \<le> length symb_list \<and>
     (\<forall>s. s \<in> set symb_list \<longleftrightarrow>
            s \<in> fst ` set (confirmed r) \<or> s \<in> set (unconfirmed r))"
proof -
  obtain c u n where f1: "symbol_loop db symb_list ([], [], []) = (c, u, n)"
    by (cases "symbol_loop db symb_list ([], [], [])") auto
  let ?r = "\<lparr> confirmed = c, unconfirmed = u @ n \<rparr>"
  note inv = first_loop_invariant [OF f1]
  note r = first_pass_final [OF f1] convert_symbols_result [OF f1] inv(3,4)
    first_loop_partition [OF f1]
  note f2 = elim_loop_one_pass [OF inv(1,2)]
  have f3: "\<forall>c0 u0 c' u2 f. elim_pass db u0 (c0, [], 0) = Inr (c', u2, f) \<longrightarrow>
        length u2 + f = length u0"
  proof (intro allI impI)
    fix c0 u0 c' u2 f
    assume "elim_pass db u0 (c0, [], 0) = Inr (c', u2, f)"
    from elim_pass_length [OF this] show "length u2 + f = length u0" by simp
  qed
  have f5: "confirmed ?r = c" and f6: "unconfirmed ?r = u @ n" by simp_all
  have f7: "distinct (map fst (confirmed ?r))" using r(3) by simp
  have f8: "length (confirmed ?r) \<le> length symb_list" using r(4) by simp
  have f9: "\<forall>s. s \<in> set symb_list \<longleftrightarrow>
              s \<in> fst ` set (confirmed ?r) \<or> s \<in> set (unconfirmed ?r)"
    using r(5) by auto
  show ?thesis
    by (rule exI [of _ ?r], rule exI [of _ c], rule exI [of _ u], rule exI [of _ n])
       (intro conjI f1 r(1) f2 f3 r(2) f5 f6 f7 f8 f9)
qed

lemma example_symbol_loop:
  "symbol_loop example_db [''tal1'', ''DUP'', ''FOO''] ([], [], [])
     = ([(''tal1'', GeneId ''ENSG01'')], [''DUP''], [''FOO''])"
  by code_simp

theorem convert_symbols_terminates_witness:
  "symbol_loop example_db [''tal1'', ''DUP'', ''FOO''] ([], [], [])
     = ([(''tal1'', GeneId ''ENSG01'')], [''DUP''], [''FOO'']) \<and>
   elim_pass example_db [''DUP''] ([(''tal1'', GeneId ''ENSG01'')], [], 0)
     = Inr ([(''tal1'', GeneId ''ENSG01'')], [''DUP''], 0) \<and>
   elim_loop example_db [(''tal1'', GeneId ''ENSG01'')] [''DUP'']
     = Inr ([(''tal1'', GeneId ''ENSG01'')], [''DUP'']) \<and>
   convert_symbols_to_ensembl example_db [''tal1'', ''DUP'', ''FOO'']
     = Inr \<lparr> confirmed = [(''tal1'', GeneId ''ENSG01'')], unconfirmed = [''DUP'', ''FOO''] \<rparr>"
proof -
  from convert_symbols_terminates [of example_db "[''tal1'', ''DUP'', ''FOO'']"]
  obtain r c u n where
    s: "symbol_loop example_db [''tal1'', ''DUP'', ''FOO''] ([], [], []) = (c, u, n)"
    and p: "elim_pass example_db u (c, [], 0) = Inr (c, u, 0)"
      "elim_loop example_db c u = Inr (c, u)"
    and r: "convert_symbols_to_ensembl example_db [''tal1'', ''DUP'', ''FOO''] = Inr r"
      "confirmed r = c" "unconfirmed r = u @ n"
    by (elim exE conjE)
  from s have v: "c = [(''tal1'', GeneId ''ENSG01'')]" "u = [''DUP'']" "n = [''FOO'']"
    unfolding example_symbol_loop by simp_all
  from r have "convert_symbols_to_ensembl example_db [''tal1'', ''DUP'', ''FOO'']
     = Inr \<lparr> confirmed = [(''tal1'', GeneId ''ENSG01'')], unconfirmed = [''DUP'', ''FOO''] \<rparr>"
    unfolding v by (cases r) simp
  with s p show ?thesis unfolding v by simp
qed

section \<open>The missing values of the counts matrix\<close>

lemma find_None_subset: "set xs \<subseteq> A \<Longrightarrow> List.find (\<lambda>l. l \<notin> A) xs = None"
  by (induction xs) auto

lemma map_err_lookup:
  assumes "\<forall>x \<in> set xs. map_of c x \<noteq> None"
  shows "\<exists>cs. map_err (\<lambda>i. case map_of c i of None \<Rightarrow> Inl (KeyError i) | Some v \<Rightarrow> Inr v) xs
                = Inr cs \<and> map Some cs = map (map_of c) xs"
  using assms
proof (induction xs)
  case Nil
  then show ?case by simp
next
  case (Cons x xs)
  from Cons.prems obtain v where v: "map_of c x = Some v" by auto
  from Cons obtain cs where
    "map_err (\<lambda>i. case map_of c i of None \<Rightarrow> Inl (KeyError i) | Some v \<Rightarrow> Inr v) xs = Inr cs"
    "map Some cs = map (map_of c) xs" by auto
  with v show ?case by simp
qed

lemma map_of_key: "k \<in> fst ` set c \<Longrightarrow> map_of c k \<noteq> None"
  by (simp add: map_of_eq_None_iff)

lemma symbols_to_ensembl_result:
  assumes "symbol_loop db (columns smp) ([], [], []) = (c, u, n)"
  shows "\<exists>cs. symbols_to_ensembl db smp
                = Inr \<lparr> index = index smp, columns = cs,
                        dat = (\<lambda>i j. dat smp i
                                 (filter (\<lambda>j. columns smp ! j \<notin> set (u @ n))
                                    [0..<length (columns smp)] ! j)) \<rparr> \<and>
              map Some cs = map (\<lambda>j. map_of c (columns smp ! j))
                              (filter (\<lambda>j. columns smp ! j \<notin> set (u @ n))
                                 [0..<length (columns smp)])"
proof -
  let ?keep = "filter (\<lambda>j. columns smp ! j \<notin> set (u @ n)) [0..<length (columns smp)]"
  let ?r = "\<lparr> confirmed = c, unconfirmed = u @ n \<rparr>"
  note part = first_loop_partition [OF assms]
  have conv: "convert_symbols_to_ensembl db (columns smp) = Inr ?r"
    by (rule convert_symbols_result [OF assms])
  from part have "set (u @ n) \<subseteq> set (columns smp)" by auto
  then have f: "List.find (\<lambda>l. l \<notin> set (columns smp)) (u @ n) = None"
    by (rule find_None_subset)
  have d: "drop_columns smp (u @ n)
             = Inr \<lparr> index = index smp, columns = map (\<lambda>j. columns smp ! j) ?keep,
                     dat = (\<lambda>i j. dat smp i (?keep ! j)) \<rparr>"
    by (simp add: drop_columns_def f Let_def)
  have "\<forall>x \<in> set (map (\<lambda>j. columns smp ! j) ?keep). map_of c x \<noteq> None"
  proof
    fix x assume "x \<in> set (map (\<lambda>j. columns smp ! j) ?keep)"
    then have "x \<in> set (columns smp)" "x \<notin> set (u @ n)" by auto
    with part have "x \<in> fst ` set c" by auto
    then show "map_of c x \<noteq> None" by (rule map_of_key)
  qed
  from map_err_lookup [OF this] obtain cs where
    cs: "map_err (\<lambda>i. case map_of c i of None \<Rightarrow> Inl (KeyError i) | Some v \<Rightarrow> Inr v)
           (map (\<lambda>j. columns smp ! j) ?keep) = Inr cs"
    "map Some cs = map (map_of c) (map (\<lambda>j. columns smp ! j) ?keep)" by blast
  have "symbols_to_ensembl db smp
          = Inr \<lparr> index = index smp, columns = cs, dat = (\<lambda>i j. dat smp i (?keep ! j)) \<rparr>"
    using cs(1) by (simp add: symbols_to_ensembl_def conv d)
  moreover from cs(2) have "map Some cs = map (\<lambda>j. map_of c (columns smp ! j)) ?keep"
    by (simp add: comp_def)
  ultimately show ?thesis by blast
qed

lemma run_result:
  assumes "relabelled db ui = Inr smp"
  shows "run db ui = Inr (if mode ui = ''test'' then Predict (fillna 0 smp)
                          else if mode ui = ''train'' then Train (fillna 0 smp) else NoCall)"
  using assms by (simp add: run_def Let_def)

lemma fillna_entries:
  "index (fillna v f) = index f" "columns (fillna v f) = columns f"
  "dat (fillna v f) i j = (case dat f i j of None \<Rightarrow> Some v | Some x \<Rightarrow> Some x)"
  "dat (fillna v f) i j \<noteq> None"
  by (simp_all add: fillna_def split: option.splits)

lemma passed_matrix_dispatch:
  "passed_matrix (if t then Predict m else if r then Train m else NoCall) = Some M
   \<Longrightarrow> M = m"
  by (simp add: passed_matrix_def split: if_splits)

text \<open>
  Claim C8. \<^verbatim>\<open>run\<close> returns, and the matrix it passes to the predictions (mode test) or to
  the training (mode train) has the samples of the input, no missing value, and at every
  position the entry of the input column it comes from, zero where that entry is
  missing. With gene identifiers as labels the columns are those of the input; with gene
  symbols they are the columns of the symbols that are not unconfirmed, in their order,
  relabelled with the confirmed identifiers.
\<close>

theorem run_fills_missing:
  "\<exists>d. run db ui = Inr d \<and>
     (mode ui = ''test'' \<longrightarrow> (\<exists>M. d = Predict M)) \<and>
     (mode ui \<noteq> ''test'' \<and> mode ui = ''train'' \<longrightarrow> (\<exists>M. d = Train M)) \<and>
     (\<forall>M. passed_matrix d = Some M \<longrightarrow>
        index M = index (samples ui) \<and>
        (\<forall>i j. dat M i j \<noteq> None) \<and>
        (gene_labels ui \<noteq> ''symbol'' \<longrightarrow>
           columns M = map GeneId (columns (samples ui)) \<and>
           (\<forall>i j. dat M i j = (case dat (samples ui) i j of None \<Rightarrow> Some 0 | Some v \<Rightarrow> Some v))) \<and>
        (gene_labels ui = ''symbol'' \<longrightarrow>
           (\<exists>r keep. convert_symbols_to_ensembl db (columns (samples ui)) = Inr r \<and>
              keep = filter (\<lambda>j. columns (samples ui) ! j \<notin> set (unconfirmed r))
                       [0..<length (columns (samples ui))] \<and>
              map Some (columns M)
                = map (\<lambda>j. map_of (confirmed r) (columns (samples ui) ! j)) keep \<and>
              (\<forall>i j. dat M i j = (case dat (samples ui) i (keep ! j) of
                                    None \<Rightarrow> Some 0 | Some v \<Rightarrow> Some v)))))"
proof (cases "gene_labels ui = ''symbol''")
  case False
  let ?smp = "\<lparr> index = index (samples ui), columns = map GeneId (columns (samples ui)),
                 dat = dat (samples ui) \<rparr>"
  let ?d = "if mode ui = ''test'' then Predict (fillna 0 ?smp)
            else if mode ui = ''train'' then Train (fillna 0 ?smp) else NoCall"
  from False have "relabelled db ui = Inr ?smp" by (simp add: relabelled_def)
  from run_result [OF this] have r: "run db ui = Inr ?d" .
  have t1: "mode ui = ''test'' \<longrightarrow> (\<exists>M. ?d = Predict M)" by simp
  have t2: "mode ui \<noteq> ''test'' \<and> mode ui = ''train'' \<longrightarrow> (\<exists>M. ?d = Train M)" by simp
  have pm: "\<forall>M. passed_matrix ?d = Some M \<longrightarrow>
        index M = index (samples ui) \<and>
        (\<forall>i j. dat M i j \<noteq> None) \<and>
        (gene_labels ui \<noteq> ''symbol'' \<longrightarrow>
           columns M = map GeneId (columns (samples ui)) \<and>
           (\<forall>i j. dat M i j = (case dat (samples ui) i j of None \<Rightarrow> Some 0 | Some v \<Rightarrow> Some v))) \<and>
        (gene_labels ui = ''symbol'' \<longrightarrow>
           (\<exists>r keep. convert_symbols_to_ensembl db (columns (samples ui)) = Inr r \<and>
              keep = filter (\<lambda>j. columns (samples ui) ! j \<notin> set (unconfirmed r))
                       [0..<length (columns (samples ui))] \<and>
              map Some (columns M)
                = map (\<lambda>j. map_of (confirmed r) (columns (samples ui) ! j)) keep \<and>
              (\<forall>i j. dat M i j = (case dat (samples ui) i (keep ! j) of
                                    None \<Rightarrow> Some 0 | Some v \<Rightarrow> Some v))))"
  proof (intro allI impI conjI)
    fix M assume "passed_matrix ?d = Some M"
    then have m: "M = fillna 0 ?smp" by (rule passed_matrix_dispatch)
    show "index M = index (samples ui)" unfolding m by (simp add: fillna_entries)
    show "dat M i j \<noteq> None" for i j unfolding m by (rule fillna_entries)
    show "columns M = map GeneId (columns (samples ui))" unfolding m
      by (simp add: fillna_entries)
    show "dat M i j = (case dat (samples ui) i j of None \<Rightarrow> Some 0 | Some v \<Rightarrow> Some v)"
      for i j unfolding m by (simp add: fillna_entries)
  next
    fix M assume "gene_labels ui = ''symbol''"
    with False show "\<exists>r keep. convert_symbols_to_ensembl db (columns (samples ui)) = Inr r \<and>
              keep = filter (\<lambda>j. columns (samples ui) ! j \<notin> set (unconfirmed r))
                       [0..<length (columns (samples ui))] \<and>
              map Some (columns M)
                = map (\<lambda>j. map_of (confirmed r) (columns (samples ui) ! j)) keep \<and>
              (\<forall>i j. dat M i j = (case dat (samples ui) i (keep ! j) of
                                    None \<Rightarrow> Some 0 | Some v \<Rightarrow> Some v))"
      by simp
  qed
  show ?thesis by (rule exI [of _ ?d]) (intro conjI r t1 t2 pm)
next
  case True
  obtain c u n where s: "symbol_loop db (columns (samples ui)) ([], [], []) = (c, u, n)"
    by (cases "symbol_loop db (columns (samples ui)) ([], [], [])") auto
  let ?r = "\<lparr> confirmed = c, unconfirmed = u @ n \<rparr>"
  let ?keep = "filter (\<lambda>j. columns (samples ui) ! j \<notin> set (u @ n))
                 [0..<length (columns (samples ui))]"
  have conv: "convert_symbols_to_ensembl db (columns (samples ui)) = Inr ?r"
    by (rule convert_symbols_result [OF s])
  from symbols_to_ensembl_result [OF s] obtain cs where
    cs: "symbols_to_ensembl db (samples ui)
           = Inr \<lparr> index = index (samples ui), columns = cs,
                   dat = (\<lambda>i j. dat (samples ui) i (?keep ! j)) \<rparr>"
    "map Some cs = map (\<lambda>j. map_of c (columns (samples ui) ! j)) ?keep" by blast
  let ?smp = "\<lparr> index = index (samples ui), columns = cs,
                 dat = (\<lambda>i j. dat (samples ui) i (?keep ! j)) \<rparr>"
  let ?d = "if mode ui = ''test'' then Predict (fillna 0 ?smp)
            else if mode ui = ''train'' then Train (fillna 0 ?smp) else NoCall"
  from True cs(1) have "relabelled db ui = Inr ?smp" by (simp add: relabelled_def)
  from run_result [OF this] have r: "run db ui = Inr ?d" .
  have t1: "mode ui = ''test'' \<longrightarrow> (\<exists>M. ?d = Predict M)" by simp
  have t2: "mode ui \<noteq> ''test'' \<and> mode ui = ''train'' \<longrightarrow> (\<exists>M. ?d = Train M)" by simp
  have pm: "\<forall>M. passed_matrix ?d = Some M \<longrightarrow>
        index M = index (samples ui) \<and>
        (\<forall>i j. dat M i j \<noteq> None) \<and>
        (gene_labels ui \<noteq> ''symbol'' \<longrightarrow>
           columns M = map GeneId (columns (samples ui)) \<and>
           (\<forall>i j. dat M i j = (case dat (samples ui) i j of None \<Rightarrow> Some 0 | Some v \<Rightarrow> Some v))) \<and>
        (gene_labels ui = ''symbol'' \<longrightarrow>
           (\<exists>r keep. convert_symbols_to_ensembl db (columns (samples ui)) = Inr r \<and>
              keep = filter (\<lambda>j. columns (samples ui) ! j \<notin> set (unconfirmed r))
                       [0..<length (columns (samples ui))] \<and>
              map Some (columns M)
                = map (\<lambda>j. map_of (confirmed r) (columns (samples ui) ! j)) keep \<and>
              (\<forall>i j. dat M i j = (case dat (samples ui) i (keep ! j) of
                                    None \<Rightarrow> Some 0 | Some v \<Rightarrow> Some v))))"
  proof (intro allI impI conjI)
    fix M assume "passed_matrix ?d = Some M"
    then have m: "M = fillna 0 ?smp" by (rule passed_matrix_dispatch)
    show "index M = index (samples ui)" unfolding m by (simp add: fillna_entries)
    show "dat M i j \<noteq> None" for i j unfolding m by (rule fillna_entries)
    have k: "?keep = filter (\<lambda>j. columns (samples ui) ! j \<notin> set (unconfirmed ?r))
                       [0..<length (columns (samples ui))]" by simp
    have c: "map Some (columns M)
                = map (\<lambda>j. map_of (confirmed ?r) (columns (samples ui) ! j)) ?keep"
      unfolding m using cs(2) by (simp add: fillna_entries)
    have e: "\<forall>i j. dat M i j = (case dat (samples ui) i (?keep ! j) of
                                    None \<Rightarrow> Some 0 | Some v \<Rightarrow> Some v)"
      unfolding m by (simp add: fillna_entries)
    show "\<exists>r keep. convert_symbols_to_ensembl db (columns (samples ui)) = Inr r \<and>
              keep = filter (\<lambda>j. columns (samples ui) ! j \<notin> set (unconfirmed r))
                       [0..<length (columns (samples ui))] \<and>
              map Some (columns M)
                = map (\<lambda>j. map_of (confirmed r) (columns (samples ui) ! j)) keep \<and>
              (\<forall>i j. dat M i j = (case dat (samples ui) i (keep ! j) of
                                    None \<Rightarrow> Some 0 | Some v \<Rightarrow> Some v))"
      by (rule exI [of _ ?r], rule exI [of _ ?keep]) (intro conjI conv k c e)
  next
    fix M assume "gene_labels ui \<noteq> ''symbol''"
    with True show "columns M = map GeneId (columns (samples ui))" by simp
  next
    fix M i j assume "gene_labels ui \<noteq> ''symbol''"
    with True show "dat M i j = (case dat (samples ui) i j of None \<Rightarrow> Some 0 | Some v \<Rightarrow> Some v)"
      by simp
  qed
  show ?thesis by (rule exI [of _ ?d]) (intro conjI r t1 t2 pm)
qed

lemma example_run_columns:
  "symbol_loop example_db (columns missing_counts) ([], [], [])
     = ([(''tal1'', GeneId ''ENSG01'')], [''DUP''], [''FOO''])"
  by code_simp

theorem run_fills_missing_witness:
  "\<exists>M. run example_db (example_ui \<lparr> gene_labels := ''symbol'' \<rparr>) = Inr (Predict M) \<and>
        index M = [''s1'', ''s2''] \<and> columns M = [GeneId ''ENSG01''] \<and>
        dat M 0 0 = Some 3 \<and> dat M 1 0 = Some 0 \<and>
        dat missing_counts 0 0 = Some 3 \<and> dat missing_counts 1 0 = None"
proof -
  let ?ui = "example_ui \<lparr> gene_labels := ''symbol'' \<rparr>"
  have ui: "mode ?ui = ''test''" "samples ?ui = missing_counts" "gene_labels ?ui = ''symbol''"
    by (simp_all add: example_ui_def)
  have conv: "convert_symbols_to_ensembl example_db (columns missing_counts)
          = Inr \<lparr> confirmed = [(''tal1'', GeneId ''ENSG01'')], unconfirmed = [''DUP''] @ [''FOO''] \<rparr>"
    by (rule convert_symbols_result [OF example_run_columns])
  have keep: "filter (\<lambda>j. columns missing_counts ! j \<notin> set ([''DUP''] @ [''FOO'']))
                [0..<length (columns missing_counts)] = [0]"
    by code_simp
  from run_fills_missing [of example_db ?ui] obtain d where
    d: "run example_db ?ui = Inr d"
    and t: "mode ?ui = ''test'' \<longrightarrow> (\<exists>M. d = Predict M)"
    and p: "\<forall>M. passed_matrix d = Some M \<longrightarrow>
        index M = index (samples ?ui) \<and>
        (gene_labels ?ui = ''symbol'' \<longrightarrow>
           (\<exists>r keep. convert_symbols_to_ensembl example_db (columns (samples ?ui)) = Inr r \<and>
              keep = filter (\<lambda>j. columns (samples ?ui) ! j \<notin> set (unconfirmed r))
                       [0..<length (columns (samples ?ui))] \<and>
              map Some (columns M)
                = map (\<lambda>j. map_of (confirmed r) (columns (samples ?ui) ! j)) keep \<and>
              (\<forall>i j. dat M i j = (case dat (samples ?ui) i (keep ! j) of
                                    None \<Rightarrow> Some 0 | Some v \<Rightarrow> Some v))))"
    by (elim exE conjE) simp
  from t ui(1) obtain M where M: "d = Predict M" by auto
  then have "passed_matrix d = Some M" by (simp add: passed_matrix_def)
  with p ui have i: "index M = index missing_counts"
    and "\<exists>r keep. convert_symbols_to_ensembl example_db (columns missing_counts) = Inr r \<and>
              keep = filter (\<lambda>j. columns missing_counts ! j \<notin> set (unconfirmed r))
                       [0..<length (columns missing_counts)] \<and>
              map Some (columns M)
                = map (\<lambda>j. map_of (confirmed r) (columns missing_counts ! j)) keep \<and>
              (\<forall>i j. dat M i j = (case dat missing_counts i (keep ! j) of
                                    None \<Rightarrow> Some 0 | Some v \<Rightarrow> Some v))"
    by simp_all
  then have c: "map Some (columns M)
                  = map (\<lambda>j. map_of [(''tal1'', GeneId ''ENSG01'')] (columns missing_counts ! j)) [0]"
    and e: "\<And>i j. dat M i j = (case dat missing_counts i ([0] ! j) of
                                    None \<Rightarrow> Some 0 | Some v \<Rightarrow> Some v)"
    unfolding conv using keep by auto
  have mc: "index missing_counts = [''s1'', ''s2'']" "columns missing_counts ! 0 = ''tal1''"
    "dat missing_counts 0 0 = Some 3" "dat missing_counts 1 0 = None"
    by (simp_all add: missing_counts_def)
  from c mc(2) have "columns M = [GeneId ''ENSG01'']" by (cases "columns M") auto
  moreover from e [of 0 0] mc(3) have "dat M 0 0 = Some 3" by simp
  moreover from e [of 1 0] mc(4) have "dat M 1 0 = Some 0" by simp
  ultimately show ?thesis using d M i mc by auto
qed

end
